theory Spec2Isabelle
  imports Complex_Main "HOL-Library.Sublist" "HOL-Library.Multiset"
begin

section \<open>Data model (src/data/types.ts)\<close>

text \<open>
  A JavaScript \<open>number\<close> that holds a count of seconds, a rank or an index is modelled
  as an \<open>int\<close>; the two coordinates of a station are \<open>real\<close>. A \<open>DayType\<close> is a string:
  the decompression lets unknown day codes through unchanged, so the type is not closed.
  An optional field, and a value that may be \<open>undefined\<close>, is an \<open>option\<close>.

  The types of the source are erased when the program runs: a field holds what the
  parsed document gave. The model keeps the shapes of a value on which the methods of
  the provider take different paths, and writes the raised exception as a value.
\<close>

datatype error = NetworkError | SyntaxError | TypeError | RangeError

type_synonym DayType = string

abbreviation WEEKDAY :: DayType where "WEEKDAY \<equiv> ''weekday''"
abbreviation SATURDAY :: DayType where "SATURDAY \<equiv> ''saturday''"
abbreviation SUNDAY :: DayType where "SUNDAY \<equiv> ''sunday''"

record HistoricalTrainTime =
  route_id :: string
  direction_id :: string
  long_name :: "string option"
  departure_time :: int
  trip_id :: string
  day_type :: DayType

record TrainTime =
  route_id :: string
  direction_id :: string
  long_name :: "string option"
  time :: int
  display_order :: int
  stop_headsign :: "string option"
  trip_id :: string
  is_express :: bool

text \<open>
  The \<open>children\<close> of a station as the provider sees them: absent (or another value
  that counts as false), an array of ids (an empty array counts as true), or a value
  that counts as true and cannot be iterated, such as a number or an object.
\<close>

datatype children_value = NoChildren | ChildIds "string list" | ChildrenNotIterable

record Station =
  stop_id :: string
  stop_name :: string
  latitude :: real
  longitude :: real
  north_direction_label :: string
  south_direction_label :: string
  routes :: "string list"
  children :: children_value

text \<open>
  The value of \<open>this.stations\<close>: an array whose entries are station objects or \<open>null\<close>,
  or a value that is no array and cannot be iterated (\<open>null\<close>, a number, an object).
  Reading a property of \<open>null\<close>, iterating or spreading a value that cannot be iterated,
  and calling \<open>find\<close> or \<open>filter\<close> on a value that has none, raise \<open>TypeError\<close>.
  The ids are strings. A document that is a string, and an entry that is a number or a
  string, are outside the model.
\<close>

datatype station_entry = NullEntry | StationEntry Station

datatype stations_value = StationsNotIterable | StationArray "station_entry list"

text \<open>
  An object used as a dictionary (\<open>HistoricalData\<close>, the \<open>data\<close> of the compressed
  document) is a map from its own keys to their values. The one name that an assignment
  \<open>object[name] = array\<close> does not store as a key is \<open>__proto__\<close>: it makes the array
  the prototype of the object, and reading \<open>__proto__\<close> gives that array back. A
  \<open>HistoricalData\<close> holds it under that name. What a name that is no key reads is
  \<open>lookupTimes\<close> below.
\<close>

type_synonym HistoricalData = "string \<rightharpoonup> HistoricalTrainTime list"

subsection \<open>src/utils/constants.ts\<close>

definition MAX_NUM_PREDICTIONS :: nat where
  "MAX_NUM_PREDICTIONS = 6"

section \<open>The provider (src/data/mta-provider.ts)\<close>

text \<open>One entry of the compressed format:
  \<open>[route_id, direction_id, name_index, departure_time, day_type_short]\<close>.\<close>

type_synonym CompressedEntry = "string \<times> string \<times> int \<times> int \<times> string"

record CompressedHistoricalData =
  names :: "string list"
  data :: "string \<rightharpoonup> CompressedEntry list"

text \<open>The four private fields of the class. Every method takes the object and, when it
  assigns a field, returns the updated object.\<close>

record MTAProvider =
  historicalData :: "HistoricalData option"
  stations :: stations_value
  childStationIds :: "string set"
  lastSecondTrain :: "TrainTime option"

definition newMTAProvider :: MTAProvider where
  "newMTAProvider =
     \<lparr>historicalData = None, stations = StationArray [], childStationIds = {},
      lastSecondTrain = None\<rparr>"

subsection \<open>decompressHistoricalData\<close>

text \<open>Reading an array at an index that is out of range gives \<open>undefined\<close>. A day code
  that is no key of \<open>dayTypeMap\<close> passes through; one that names an inherited member of
  that object gives a value equal to no day type, as the code itself is here.\<close>

definition js_index :: "'a list \<Rightarrow> int \<Rightarrow> 'a option" where
  "js_index xs i = (if 0 \<le> i \<and> i < int (length xs) then Some (xs ! nat i) else None)"

definition dayTypeMap :: "string \<rightharpoonup> DayType" where
  "dayTypeMap = [''w'' \<mapsto> WEEKDAY, ''s'' \<mapsto> SATURDAY, ''u'' \<mapsto> SUNDAY]"

definition decompressEntry :: "string list \<Rightarrow> CompressedEntry \<Rightarrow> HistoricalTrainTime" where
  "decompressEntry nms entry =
     (case entry of (e0, e1, e2, e3, e4) \<Rightarrow>
        \<lparr>HistoricalTrainTime.route_id = e0,
         direction_id = e1,
         long_name = js_index nms e2,
         departure_time = e3,
         trip_id = [],
         day_type = (case dayTypeMap e4 of Some d \<Rightarrow> d | None \<Rightarrow> e4)\<rparr>)"

definition decompressHistoricalData :: "CompressedHistoricalData \<Rightarrow> HistoricalData" where
  "decompressHistoricalData compressed =
     (\<lambda>stopId. map_option (map (decompressEntry (names compressed))) (data compressed stopId))"

subsection \<open>loadData\<close>

text \<open>
  \<open>loadData\<close> awaits two documents, and the outcome of each is a parameter of the
  model. \<open>Inl e\<close> for the historical document: the fetch, the parse or the decompression
  raises \<open>e\<close>, each before line 29 assigns. \<open>Inl e\<close> for the stations document: the fetch
  or the parse raises \<open>e\<close>, before line 33 assigns. \<open>Inr\<close>: what line 29 decompresses, and
  what line 33 assigns. \<open>buildChildStationSet\<close> then reads the assigned value and can
  raise in its turn. The result is the outcome of the promise and the object as the
  method leaves it.
\<close>

fun addChildIds :: "string list \<Rightarrow> string set \<Rightarrow> string set" where
  "addChildIds [] ids = ids"
| "addChildIds (childId # rest) ids = addChildIds rest (insert childId ids)"

text \<open>The loop of lines 72 to 78 over the entries, with the set as it is when the loop
  ends or raises.\<close>

fun collectChildIds :: "station_entry list \<Rightarrow> string set \<Rightarrow> (error + unit) \<times> string set" where
  "collectChildIds [] ids = (Inr (), ids)"
| "collectChildIds (NullEntry # rest) ids = (Inl TypeError, ids)"
| "collectChildIds (StationEntry station # rest) ids =
     (case children station of
        NoChildren \<Rightarrow> collectChildIds rest ids
      | ChildIds cs \<Rightarrow> collectChildIds rest (addChildIds cs ids)
      | ChildrenNotIterable \<Rightarrow> (Inl TypeError, ids))"

definition buildChildStationSet :: "MTAProvider \<Rightarrow> (error + unit) \<times> MTAProvider" where
  "buildChildStationSet this =
     (case stations this of
        StationsNotIterable \<Rightarrow> (Inl TypeError, this\<lparr>childStationIds := {}\<rparr>)
      | StationArray entries \<Rightarrow>
          (case collectChildIds entries {} of
             (outcome, ids) \<Rightarrow> (outcome, this\<lparr>childStationIds := ids\<rparr>)))"

definition loadData ::
  "MTAProvider \<Rightarrow> error + CompressedHistoricalData \<Rightarrow> error + stations_value
     \<Rightarrow> (error + unit) \<times> MTAProvider" where
  "loadData this histDocument stationsDocument =
     (case histDocument of
        Inl e \<Rightarrow> (Inl e, this)
      | Inr compressedData \<Rightarrow>
          let this1 = this\<lparr>historicalData := Some (decompressHistoricalData compressedData)\<rparr>
          in (case stationsDocument of
                Inl e \<Rightarrow> (Inl e, this1)
              | Inr parsed \<Rightarrow> buildChildStationSet (this1\<lparr>stations := parsed\<rparr>)))"

subsection \<open>getStations, getStation\<close>

fun filterStations :: "string set \<Rightarrow> station_entry list \<Rightarrow> error + Station list" where
  "filterStations ids [] = Inr []"
| "filterStations ids (NullEntry # rest) = Inl TypeError"
| "filterStations ids (StationEntry station # rest) =
     (case filterStations ids rest of
        Inl e \<Rightarrow> Inl e
      | Inr kept \<Rightarrow> Inr (if stop_id station \<notin> ids then station # kept else kept))"

definition getStations :: "MTAProvider \<Rightarrow> error + Station list" where
  "getStations this =
     (case stations this of
        StationsNotIterable \<Rightarrow> Inl TypeError
      | StationArray entries \<Rightarrow> filterStations (childStationIds this) entries)"

fun findStation :: "string \<Rightarrow> station_entry list \<Rightarrow> error + Station option" where
  "findStation stopId [] = Inr None"
| "findStation stopId (NullEntry # rest) = Inl TypeError"
| "findStation stopId (StationEntry s # rest) =
     (if stop_id s = stopId then Inr (Some s) else findStation stopId rest)"

definition getStation :: "MTAProvider \<Rightarrow> string \<Rightarrow> error + Station option" where
  "getStation this stopId =
     (case stations this of
        StationsNotIterable \<Rightarrow> Inl TypeError
      | StationArray entries \<Rightarrow> findStation stopId entries)"

subsection \<open>getDayType, getSecondsFromMidnight\<close>

text \<open>The local-time components that the code reads from \<open>new Date()\<close>; the instant is a
  parameter of \<open>getPredictions\<close>.\<close>

record Date =
  getDay :: int
  getHours :: int
  getMinutes :: int
  getSeconds :: int

definition getDayType :: "Date \<Rightarrow> DayType" where
  "getDayType date =
     (let day = getDay date
      in if day = 0 then SUNDAY else if day = 6 then SATURDAY else WEEKDAY)"

definition getSecondsFromMidnight :: "Date \<Rightarrow> int" where
  "getSecondsFromMidnight date = getHours date * 3600 + getMinutes date * 60 + getSeconds date"

subsection \<open>isExpressTrain\<close>

text \<open>\<open>String.prototype.includes\<close>: the search string occurs at some position.\<close>

fun includesStr :: "string \<Rightarrow> string \<Rightarrow> bool" where
  "includesStr [] searchString = (searchString = [])"
| "includesStr (c # cs) searchString = (prefix searchString (c # cs) \<or> includesStr cs searchString)"

definition isExpressTrain :: "string \<Rightarrow> string \<Rightarrow> bool" where
  "isExpressTrain routeId tripId =
     (if routeId \<noteq> ''4'' \<and> routeId \<noteq> ''6'' then False
      else includesStr tripId ''_X'' \<or> includesStr tripId ''EXPRESS'')"

subsection \<open>getPredictions\<close>

text \<open>\<open>Number.prototype.toString\<close> on an integer: its decimal digits, with a minus sign.\<close>

function digitsOf :: "nat \<Rightarrow> string" where
  "digitsOf n =
     (if n < 10 then [''0123456789'' ! n]
      else digitsOf (n div 10) @ [''0123456789'' ! (n mod 10)])"
  by pat_completeness auto
termination
  by (relation "measure id") auto

declare digitsOf.simps [simp del]

definition toString :: "int \<Rightarrow> string" where
  "toString n = (if n < 0 then CHR ''-'' # digitsOf (nat (- n)) else digitsOf (nat n))"

text \<open>
  \<open>this.historicalData[stationId]\<close>, as the two statements after it use the value:
  \<open>Records\<close> is an array, which the loop iterates; \<open>Missing\<close> is \<open>undefined\<close> or another
  value that counts as false, on which the loop continues; \<open>NotIterable\<close> is a value that
  counts as true and cannot be iterated, on which \<open>for .. of\<close> raises \<open>TypeError\<close>.
  A name that is no key of the object reads what the object inherits: the members of
  \<open>Object.prototype\<close>, all functions but \<open>__proto__\<close>, which gives the prototype; and,
  when the prototype is an array, its elements under their indices, its \<open>length\<close> and
  the members of \<open>Array.prototype\<close>.
\<close>

definition objectPrototypeNames :: "string list" where
  "objectPrototypeNames =
     [''constructor'', ''hasOwnProperty'', ''isPrototypeOf'', ''propertyIsEnumerable'',
      ''toLocaleString'', ''toString'', ''valueOf'', ''__proto__'', ''__defineGetter__'',
      ''__defineSetter__'', ''__lookupGetter__'', ''__lookupSetter__'']"

definition arrayPrototypeNames :: "string list" where
  "arrayPrototypeNames =
     [''at'', ''concat'', ''constructor'', ''copyWithin'', ''entries'', ''every'', ''fill'',
      ''filter'', ''find'', ''findIndex'', ''findLast'', ''findLastIndex'', ''flat'',
      ''flatMap'', ''forEach'', ''includes'', ''indexOf'', ''join'', ''keys'', ''lastIndexOf'',
      ''map'', ''pop'', ''push'', ''reduce'', ''reduceRight'', ''reverse'', ''shift'', ''slice'',
      ''some'', ''sort'', ''splice'', ''toLocaleString'', ''toReversed'', ''toSorted'',
      ''toSpliced'', ''toString'', ''unshift'', ''values'', ''with'']"

datatype lookup = Missing | Records "HistoricalTrainTime list" | NotIterable

definition lookupTimes :: "HistoricalData \<Rightarrow> string \<Rightarrow> lookup" where
  "lookupTimes hist name =
     (case hist name of
        Some historicalTimes \<Rightarrow> Records historicalTimes
      | None \<Rightarrow>
          if name \<in> set objectPrototypeNames then NotIterable
          else
            (case hist ''__proto__'' of
               None \<Rightarrow> Missing
             | Some elements \<Rightarrow>
                 if name \<in> set (map digitsOf [0..<length elements]) then NotIterable
                 else if name = ''length'' then (if elements = [] then Missing else NotIterable)
                 else if name \<in> set arrayPrototypeNames then NotIterable
                 else Missing))"

text \<open>Lines 138 to 143: the wait time, a day added when the difference is negative.\<close>

definition waitTimeOf :: "int \<Rightarrow> int \<Rightarrow> int" where
  "waitTimeOf departure currentSecondsFromMidnight =
     (let waitTime = departure - currentSecondsFromMidnight
      in if waitTime < 0 then waitTime + 24 * 3600 else waitTime)"

text \<open>The body of the inner loop: \<open>None\<close> is a \<open>continue\<close>, \<open>Some p\<close> is the entry pushed.\<close>

definition predictionOf ::
  "DayType \<Rightarrow> int option \<Rightarrow> int \<Rightarrow> HistoricalTrainTime \<Rightarrow> TrainTime option" where
  "predictionOf currentDayType direction currentSecondsFromMidnight histTime =
     (if day_type histTime \<noteq> currentDayType then None
      else if (case direction of
                 None \<Rightarrow> False
               | Some d \<Rightarrow> HistoricalTrainTime.direction_id histTime \<noteq> toString d) then None
      else
        let waitTime = waitTimeOf (departure_time histTime) currentSecondsFromMidnight
        in if waitTime > 3600 then None
           else if waitTime < 0 then None
           else Some
             \<lparr>route_id = HistoricalTrainTime.route_id histTime,
              direction_id = HistoricalTrainTime.direction_id histTime,
              long_name = HistoricalTrainTime.long_name histTime,
              time = waitTime,
              display_order = 0,
              stop_headsign = None,
              trip_id = HistoricalTrainTime.trip_id histTime,
              is_express =
                isExpressTrain (HistoricalTrainTime.route_id histTime)
                  (HistoricalTrainTime.trip_id histTime)\<rparr>)"

text \<open>The two loops, with the array \<open>predictions\<close> that they push to as accumulator.\<close>

fun collectTimes ::
  "DayType \<Rightarrow> int option \<Rightarrow> int \<Rightarrow> HistoricalTrainTime list \<Rightarrow> TrainTime list
     \<Rightarrow> TrainTime list" where
  "collectTimes dt dir secs [] predictions = predictions"
| "collectTimes dt dir secs (histTime # rest) predictions =
     (case predictionOf dt dir secs histTime of
        None \<Rightarrow> collectTimes dt dir secs rest predictions
      | Some p \<Rightarrow> collectTimes dt dir secs rest (predictions @ [p]))"

fun collectStations ::
  "HistoricalData \<Rightarrow> DayType \<Rightarrow> int option \<Rightarrow> int \<Rightarrow> string list \<Rightarrow> TrainTime list
     \<Rightarrow> error + TrainTime list" where
  "collectStations hist dt dir secs [] predictions = Inr predictions"
| "collectStations hist dt dir secs (stationId # rest) predictions =
     (case lookupTimes hist stationId of
        Missing \<Rightarrow> collectStations hist dt dir secs rest predictions
      | NotIterable \<Rightarrow> Inl TypeError
      | Records historicalTimes \<Rightarrow>
          collectStations hist dt dir secs rest
            (collectTimes dt dir secs historicalTimes predictions))"

text \<open>What one station of the list contributes to \<open>predictions\<close>: the entries of its
  records that the loop body pushes, in the order of the records.\<close>

definition fromStation ::
  "HistoricalData \<Rightarrow> DayType \<Rightarrow> int option \<Rightarrow> int \<Rightarrow> string \<Rightarrow> TrainTime list" where
  "fromStation hist dt dir secs stationId =
     (case hist stationId of None \<Rightarrow> [] | Some hs \<Rightarrow> List.map_filter (predictionOf dt dir secs) hs)"

text \<open>
  Lines 104 to 108. \<open>push(...station.children)\<close> passes every child id as an argument of
  one call: an engine raises \<open>RangeError\<close> when the arguments are more than it accepts.
  The source does not fix that number; it is the parameter \<open>maxArguments\<close>.
\<close>

definition stationIdsToCheck :: "nat \<Rightarrow> MTAProvider \<Rightarrow> string \<Rightarrow> error + string list" where
  "stationIdsToCheck maxArguments this stopId =
     (case getStation this stopId of
        Inl e \<Rightarrow> Inl e
      | Inr None \<Rightarrow> Inr [stopId]
      | Inr (Some station) \<Rightarrow>
          (case children station of
             NoChildren \<Rightarrow> Inr [stopId]
           | ChildIds cs \<Rightarrow>
               if length cs > maxArguments then Inl RangeError else Inr ([stopId] @ cs)
           | ChildrenNotIterable \<Rightarrow> Inl TypeError))"

text \<open>\<open>predictions.sort((a, b) => a.time - b.time)\<close>: \<open>Array.prototype.sort\<close> is a stable
  sort, and so is \<open>sort_key\<close>, so both give the one stable arrangement by \<open>time\<close>.\<close>

definition sortByTime :: "TrainTime list \<Rightarrow> TrainTime list" where
  "sortByTime predictions = sort_key time predictions"

definition assignDisplayOrder :: "TrainTime list \<Rightarrow> TrainTime list" where
  "assignDisplayOrder predictions =
     map (\<lambda>(i, p). p\<lparr>display_order := int i\<rparr>) (enumerate 0 predictions)"

text \<open>Lines 173 to 180: sort, rank, slice.\<close>

definition topPredictions :: "TrainTime list \<Rightarrow> TrainTime list" where
  "topPredictions predictions =
     take MAX_NUM_PREDICTIONS (assignDisplayOrder (sortByTime predictions))"

text \<open>Lines 104 to 171: the array \<open>predictions\<close> when the two loops end, or the exception
  that ends the call before.\<close>

definition collectPredictions ::
  "nat \<Rightarrow> HistoricalData \<Rightarrow> MTAProvider \<Rightarrow> string \<Rightarrow> int option \<Rightarrow> Date
     \<Rightarrow> error + TrainTime list" where
  "collectPredictions maxArguments hist this stopId direction now =
     (case stationIdsToCheck maxArguments this stopId of
        Inl e \<Rightarrow> Inl e
      | Inr ids \<Rightarrow>
          collectStations hist (getDayType now) direction (getSecondsFromMidnight now) ids [])"

definition getPredictions ::
  "nat \<Rightarrow> MTAProvider \<Rightarrow> string \<Rightarrow> int option \<Rightarrow> Date \<Rightarrow> error + TrainTime list" where
  "getPredictions maxArguments this stopId direction now =
     (case historicalData this of
        None \<Rightarrow> Inr []
      | Some hist \<Rightarrow>
          (case collectPredictions maxArguments hist this stopId direction now of
             Inl e \<Rightarrow> Inl e
           | Inr predictions \<Rightarrow> Inr (topPredictions predictions)))"

subsection \<open>getSecondTrain\<close>

text \<open>The scan of lines 197 to 206, from index \<open>i\<close>: \<open>Some\<close> is the entry selected at
  the first match, \<open>None\<close> is the loop running to its end. On this path the list has at
  least two entries, so index 1 is in range.\<close>

function findNext :: "TrainTime list \<Rightarrow> TrainTime \<Rightarrow> nat \<Rightarrow> TrainTime option" where
  "findNext predictions lastTrain i =
     (if i < length predictions then
        if display_order (predictions ! i) = display_order lastTrain then
          let nextId = i + 1;
              nextId = (if nextId \<ge> length predictions then 1 else nextId)
          in Some (predictions ! nextId)
        else findNext predictions lastTrain (i + 1)
      else None)"
  by pat_completeness auto
termination
  by (relation "measure (\<lambda>(predictions, lastTrain, i). length predictions - i)") auto

declare findNext.simps [simp del]

definition getSecondTrain :: "MTAProvider \<Rightarrow> TrainTime list \<Rightarrow> TrainTime option \<times> MTAProvider" where
  "getSecondTrain this predictions =
     (if length predictions < 2 then (None, this)
      else
        (case lastSecondTrain this of
           None \<Rightarrow> (Some (predictions ! 1), this\<lparr>lastSecondTrain := Some (predictions ! 1)\<rparr>)
         | Some lastTrain \<Rightarrow>
             (case findNext predictions lastTrain 0 of
                Some selected \<Rightarrow> (Some selected, this\<lparr>lastSecondTrain := Some selected\<rparr>)
              | None \<Rightarrow>
                  (Some (predictions ! 1), this\<lparr>lastSecondTrain := Some (predictions ! 1)\<rparr>))))"

text \<open>The refresh cycle of the application calls \<open>getSecondTrain\<close> once per refresh:
  the entries returned by \<open>n\<close> successive calls on the same list.\<close>

fun secondTrains :: "nat \<Rightarrow> MTAProvider \<Rightarrow> TrainTime list \<Rightarrow> TrainTime option list" where
  "secondTrains 0 this predictions = []"
| "secondTrains (Suc n) this predictions =
     (case getSecondTrain this predictions of
        (shown, this') \<Rightarrow> shown # secondTrains n this' predictions)"

subsection \<open>The parent/child graph of a station list\<close>

text \<open>The pairs (parent, child) that the \<open>children\<close> fields list, and what it means for
  a stop to be its own descendant.\<close>

definition childEdges :: "Station list \<Rightarrow> (string \<times> string) list" where
  "childEdges sts =
     concat (map (\<lambda>s. case children s of ChildIds cs \<Rightarrow> map (Pair (stop_id s)) cs | _ \<Rightarrow> []) sts)"

definition ownDescendant :: "Station list \<Rightarrow> string \<Rightarrow> bool" where
  "ownDescendant sts x = ((x, x) \<in> (set (childEdges sts))\<^sup>+)"

text \<open>The entries that \<open>buildChildStationSet\<close> passes without raising, and the child ids
  that an entry lists.\<close>

definition okEntry :: "station_entry \<Rightarrow> bool" where
  "okEntry entry =
     (case entry of NullEntry \<Rightarrow> False | StationEntry s \<Rightarrow> children s \<noteq> ChildrenNotIterable)"

definition entryChildIds :: "station_entry \<Rightarrow> string list" where
  "entryChildIds entry =
     (case entry of
        NullEntry \<Rightarrow> []
      | StationEntry s \<Rightarrow> (case children s of ChildIds cs \<Rightarrow> cs | _ \<Rightarrow> []))"

subsection \<open>A worked example\<close>

text \<open>A complex \<open>P\<close> with two platforms \<open>C1\<close> and \<open>C2\<close>, a compressed dataset for the three
  stops, a Monday at 00:00:50, and an engine that accepts 65535 arguments. The examples
  below run the provider on them.\<close>

definition exampleStation :: "string \<Rightarrow> children_value \<Rightarrow> Station" where
  "exampleStation stopId cs =
     \<lparr>stop_id = stopId, stop_name = ''86 St'', latitude = 0, longitude = 0,
      north_direction_label = ''Uptown'', south_direction_label = ''Downtown'',
      routes = [''4'', ''6''], children = cs\<rparr>"

definition exampleStations :: "Station list" where
  "exampleStations =
     [exampleStation ''P'' (ChildIds [''C1'', ''C2'']),
      exampleStation ''C1'' NoChildren,
      exampleStation ''C2'' NoChildren]"

definition cyclicStations :: "Station list" where
  "cyclicStations =
     [exampleStation ''A'' (ChildIds [''B'']), exampleStation ''B'' (ChildIds [''A''])]"

text \<open>The entries of a stations document whose second station has the number 5 as
  \<open>children\<close>.\<close>

definition brokenEntries :: "station_entry list" where
  "brokenEntries =
     [StationEntry (exampleStation ''P'' (ChildIds [''C1'', ''C2''])),
      StationEntry (exampleStation ''C1'' ChildrenNotIterable),
      StationEntry (exampleStation ''Q'' (ChildIds [''C3'']))]"

definition entriesP :: "CompressedEntry list" where
  "entriesP =
     [(''4'', ''0'', 0, 110, ''w''), (''4'', ''1'', 1, 350, ''w''), (''6'', ''0'', 0, 20, ''w''),
      (''4'', ''0'', 0, 3650, ''w''), (''4'', ''0'', 0, 3651, ''w''), (''6'', ''0'', 0, 110, ''s'')]"

definition entriesC1 :: "CompressedEntry list" where
  "entriesC1 = [(''6'', ''0'', 0, 110, ''w''), (''6'', ''1'', 1, 200, ''w'')]"

definition entriesC2 :: "CompressedEntry list" where
  "entriesC2 =
     [(''6'', ''0'', 0, 350, ''w''), (''4'', ''1'', 1, 400, ''w''), (''6'', ''1'', 7, 500, ''w'')]"

definition exampleData :: CompressedHistoricalData where
  "exampleData =
     \<lparr>names = [''Woodlawn'', ''Brooklyn Bridge''],
      data = [''P'' \<mapsto> entriesP, ''C1'' \<mapsto> entriesC1, ''C2'' \<mapsto> entriesC2]\<rparr>"

definition exampleProvider :: MTAProvider where
  "exampleProvider =
     snd (loadData newMTAProvider (Inr exampleData)
            (Inr (StationArray (map StationEntry exampleStations))))"

definition exampleLimit :: nat where
  "exampleLimit = 65535"

definition exampleNow :: Date where
  "exampleNow = \<lparr>getDay = 1, getHours = 0, getMinutes = 0, getSeconds = 50\<rparr>"

definition expressRecord :: HistoricalTrainTime where
  "expressRecord =
     \<lparr>HistoricalTrainTime.route_id = ''6'', direction_id = ''0'',
      long_name = Some ''Pelham Bay Park'', departure_time = 100, trip_id = ''t1_EXPRESS'',
      day_type = WEEKDAY\<rparr>"

definition expressProvider :: MTAProvider where
  "expressProvider = newMTAProvider\<lparr>historicalData := Some [''S'' \<mapsto> [expressRecord]]\<rparr>"

definition examplePredictions :: "TrainTime list" where
  "examplePredictions =
     (case getPredictions exampleLimit exampleProvider ''P'' None exampleNow of
        Inl e \<Rightarrow> []
      | Inr predictions \<Rightarrow> predictions)"

definition examplePredictionsC1 :: "TrainTime list" where
  "examplePredictionsC1 =
     (case getPredictions exampleLimit exampleProvider ''C1'' None exampleNow of
        Inl e \<Rightarrow> []
      | Inr predictions \<Rightarrow> predictions)"

section \<open>Properties of the rotation (getSecondTrain)\<close>

subsection \<open>The scan\<close>

lemma findNext_match:
  assumes "i < length ps" "display_order (ps ! i) = display_order l"
  shows "findNext ps l i = Some (ps ! (if i + 1 \<ge> length ps then 1 else i + 1))"
  using assms by (subst findNext.simps) (simp add: Let_def)

lemma findNext_skip:
  assumes "i < length ps" "display_order (ps ! i) \<noteq> display_order l"
  shows "findNext ps l i = findNext ps l (i + 1)"
  using assms by (subst findNext.simps) simp

lemma findNext_end:
  assumes "length ps \<le> i"
  shows "findNext ps l i = None"
  using assms by (subst findNext.simps) simp

lemma findNext_range:
  assumes "2 \<le> length ps" "findNext ps l i = Some q"
  shows "\<exists>j. 1 \<le> j \<and> j < length ps \<and> q = ps ! j"
  using assms
proof (induction ps l i rule: findNext.induct)
  case (1 ps l i)
  show ?case
  proof (cases "i < length ps")
    case False
    with "1.prems" show ?thesis by (simp add: findNext_end)
  next
    case inrange: True
    show ?thesis
    proof (cases "display_order (ps ! i) = display_order l")
      case True
      define j where "j = (if i + 1 \<ge> length ps then 1 else i + 1)"
      have "findNext ps l i = Some (ps ! j)"
        unfolding j_def by (rule findNext_match[OF inrange True])
      with "1.prems"(2) have "q = ps ! j" by simp
      moreover from "1.prems"(1) inrange have "1 \<le> j \<and> j < length ps"
        by (simp add: j_def)
      ultimately show ?thesis by blast
    next
      case False
      with inrange "1.prems" have "findNext ps l (i + 1) = Some q"
        by (simp add: findNext_skip)
      with "1.IH" inrange False "1.prems"(1) show ?thesis by simp
    qed
  qed
qed

lemma findNext_ranked:
  assumes "\<forall>i<length ps. display_order (ps ! i) = int i"
    and "display_order l = int r" "r < length ps" "i \<le> r"
  shows "findNext ps l i = Some (ps ! (if r + 1 \<ge> length ps then 1 else r + 1))"
  using assms
proof (induction "r - i" arbitrary: i)
  case 0
  then have "i = r" by simp
  with 0 show ?case by (simp add: findNext_match)
next
  case (Suc d)
  then have lt: "i < r" by simp
  with Suc.prems have "display_order (ps ! i) \<noteq> display_order l" by simp
  with lt Suc.prems have "findNext ps l i = findNext ps l (i + 1)"
    by (simp add: findNext_skip)
  moreover have "findNext ps l (i + 1) = Some (ps ! (if r + 1 \<ge> length ps then 1 else r + 1))"
    using Suc.hyps(2) lt Suc.prems by (intro Suc.hyps(1)) auto
  ultimately show ?case by simp
qed

lemma findNext_absent:
  assumes "\<forall>j<length ps. i \<le> j \<longrightarrow> display_order (ps ! j) \<noteq> display_order l"
  shows "findNext ps l i = None"
  using assms
proof (induction ps l i rule: findNext.induct)
  case (1 ps l i)
  show ?case
  proof (cases "i < length ps")
    case False
    then show ?thesis by (simp add: findNext_end)
  next
    case True
    with "1.prems" have ne: "display_order (ps ! i) \<noteq> display_order l" by simp
    with True have "findNext ps l i = findNext ps l (i + 1)" by (simp add: findNext_skip)
    moreover have "findNext ps l (i + 1) = None"
      using "1.IH" True ne "1.prems" by simp
    ultimately show ?thesis by simp
  qed
qed

subsection \<open>One call\<close>

lemma getSecondTrain_first:
  assumes "2 \<le> length ps" "lastSecondTrain this = None"
  shows "getSecondTrain this ps = (Some (ps ! 1), this\<lparr>lastSecondTrain := Some (ps ! 1)\<rparr>)"
  using assms by (simp add: getSecondTrain_def)

lemma getSecondTrain_advance:
  assumes "2 \<le> length ps" "\<forall>i<length ps. display_order (ps ! i) = int i"
    and "lastSecondTrain this = Some l" "display_order l = int r" "r < length ps"
  shows "getSecondTrain this ps =
           (Some (ps ! (if r + 1 \<ge> length ps then 1 else r + 1)),
            this\<lparr>lastSecondTrain := Some (ps ! (if r + 1 \<ge> length ps then 1 else r + 1))\<rparr>)"
proof -
  have "findNext ps l 0 = Some (ps ! (if r + 1 \<ge> length ps then 1 else r + 1))"
    using assms(2,4,5) by (intro findNext_ranked) auto
  with assms(1,3) show ?thesis by (simp add: getSecondTrain_def)
qed

lemma getSecondTrain_absent:
  assumes "2 \<le> length ps" "\<forall>i<length ps. display_order (ps ! i) = int i"
    and "lastSecondTrain this = Some l" "display_order l < 0 \<or> int (length ps) \<le> display_order l"
  shows "getSecondTrain this ps = (Some (ps ! 1), this\<lparr>lastSecondTrain := Some (ps ! 1)\<rparr>)"
proof -
  have "findNext ps l 0 = None"
    using assms(2,4) by (intro findNext_absent) auto
  with assms(1,3) show ?thesis by (simp add: getSecondTrain_def)
qed

lemma getSecondTrain_selects:
  assumes "2 \<le> length ps" "\<forall>i<length ps. display_order (ps ! i) = int i"
  shows "\<exists>j. 1 \<le> j \<and> j < length ps
           \<and> getSecondTrain this ps = (Some (ps ! j), this\<lparr>lastSecondTrain := Some (ps ! j)\<rparr>)"
proof (cases "lastSecondTrain this")
  case None
  from getSecondTrain_first[OF assms(1) None] assms(1) show ?thesis
    by (intro exI[of _ 1]) simp
next
  case (Some l)
  show ?thesis
  proof (cases "display_order l < 0 \<or> int (length ps) \<le> display_order l")
    case True
    from getSecondTrain_absent[OF assms Some True] assms(1) show ?thesis
      by (intro exI[of _ 1]) simp
  next
    case False
    define r where "r = nat (display_order l)"
    from False have r: "display_order l = int r" "r < length ps" unfolding r_def by linarith+
    define j where "j = (if r + 1 \<ge> length ps then 1 else r + 1)"
    have "1 \<le> j \<and> j < length ps" using assms(1) by (simp add: j_def)
    moreover have "getSecondTrain this ps
        = (Some (ps ! j), this\<lparr>lastSecondTrain := Some (ps ! j)\<rparr>)"
      unfolding j_def by (rule getSecondTrain_advance[OF assms Some r])
    ultimately show ?thesis by blast
  qed
qed

subsection \<open>Successive calls on one list\<close>

lemma slot_bound:
  assumes "2 \<le> (N::nat)"
  shows "1 + k mod (N - 1) < N"
proof -
  have "k mod (N - 1) < N - 1" using assms by (intro mod_less_divisor) simp
  then show ?thesis by simp
qed

lemma next_index:
  assumes "2 \<le> (N::nat)" "1 \<le> j" "j < N"
  shows "(if j + 1 \<ge> N then 1 else j + 1) = 1 + j mod (N - 1)"
proof (cases "j + 1 \<ge> N")
  case True
  with assms have "j = N - 1" by simp
  then show ?thesis using True by simp
next
  case False
  then have "j < N - 1" by simp
  then show ?thesis using False by simp
qed

lemma upt_Suc_shift: "0 # map Suc [0..<n] = [0..<Suc n]"
  by (simp add: upt_conv_Cons map_Suc_upt del: upt_Suc)

lemma secondTrains_from:
  assumes "2 \<le> length ps" "\<forall>i<length ps. display_order (ps ! i) = int i"
    and "lastSecondTrain this = Some (ps ! j)" "1 \<le> j" "j < length ps"
  shows "secondTrains n this ps = map (\<lambda>k. Some (ps ! (1 + (j + k) mod (length ps - 1)))) [0..<n]"
  using assms(3-5)
proof (induction n arbitrary: this j)
  case 0
  show ?case by simp
next
  case (Suc n)
  let ?N = "length ps"
  define j' where "j' = 1 + j mod (?N - 1)"
  have j': "1 \<le> j'" "j' < ?N" using slot_bound[OF assms(1)] by (simp_all add: j'_def)
  have rank: "display_order (ps ! j) = int j" using assms(2) Suc.prems by simp
  have step: "getSecondTrain this ps = (Some (ps ! j'), this\<lparr>lastSecondTrain := Some (ps ! j')\<rparr>)"
    using getSecondTrain_advance[OF assms(1,2) Suc.prems(1) rank Suc.prems(3)]
      next_index[OF assms(1) Suc.prems(2,3)] by (simp add: j'_def)
  have shift: "(j' + k) mod (?N - 1) = (j + Suc k) mod (?N - 1)" for k
    unfolding j'_def by (metis add.assoc add.commute mod_add_left_eq plus_1_eq_Suc)
  have "secondTrains n (this\<lparr>lastSecondTrain := Some (ps ! j')\<rparr>) ps
      = map (\<lambda>k. Some (ps ! (1 + (j' + k) mod (?N - 1)))) [0..<n]"
    using j' by (intro Suc.IH) simp_all
  then have rest: "secondTrains n (this\<lparr>lastSecondTrain := Some (ps ! j')\<rparr>) ps
      = map (\<lambda>k. Some (ps ! (1 + (j + Suc k) mod (?N - 1)))) [0..<n]"
    unfolding shift .
  have "secondTrains (Suc n) this ps
      = Some (ps ! j') # map (\<lambda>k. Some (ps ! (1 + (j + Suc k) mod (?N - 1)))) [0..<n]"
    using step rest by simp
  also have "\<dots> = map (\<lambda>k. Some (ps ! (1 + (j + k) mod (?N - 1)))) (0 # map Suc [0..<n])"
    by (simp add: j'_def comp_def)
  also have "0 # map Suc [0..<n] = [0..<Suc n]"
    by (simp add: upt_conv_Cons map_Suc_upt del: upt_Suc)
  finally show ?case .
qed

lemma secondTrains_started:
  assumes "2 \<le> length ps" "\<forall>i<length ps. display_order (ps ! i) = int i"
    and "getSecondTrain this ps = (Some (ps ! j), this\<lparr>lastSecondTrain := Some (ps ! j)\<rparr>)"
    and "1 \<le> j" "j < length ps"
  shows "secondTrains n this ps
           = map (\<lambda>k. Some (ps ! (1 + (j - 1 + k) mod (length ps - 1)))) [0..<n]"
proof (cases n)
  case 0
  then show ?thesis by simp
next
  case (Suc m)
  let ?N = "length ps"
  have first: "1 + (j - 1 + 0) mod (?N - 1) = j"
    using assms(4,5) by simp
  have shift: "(j + k) mod (?N - 1) = (j - 1 + Suc k) mod (?N - 1)" for k
    using assms(4) by simp
  have "secondTrains m (this\<lparr>lastSecondTrain := Some (ps ! j)\<rparr>) ps
      = map (\<lambda>k. Some (ps ! (1 + (j + k) mod (?N - 1)))) [0..<m]"
    using assms(4,5) by (intro secondTrains_from[OF assms(1,2)]) simp_all
  then have rest: "secondTrains m (this\<lparr>lastSecondTrain := Some (ps ! j)\<rparr>) ps
      = map (\<lambda>k. Some (ps ! (1 + (j - 1 + Suc k) mod (?N - 1)))) [0..<m]"
    unfolding shift .
  have "secondTrains (Suc m) this ps
      = Some (ps ! (1 + (j - 1 + 0) mod (?N - 1)))
          # map (\<lambda>k. Some (ps ! (1 + (j - 1 + Suc k) mod (?N - 1)))) [0..<m]"
    unfolding first using assms(3) rest by simp
  also have "\<dots> = map (\<lambda>k. Some (ps ! (1 + (j - 1 + k) mod (?N - 1)))) (0 # map Suc [0..<m])"
    by (simp add: comp_def)
  finally show ?thesis unfolding upt_Suc_shift Suc .
qed

lemma secondTrains_fresh:
  assumes "2 \<le> length ps" "\<forall>i<length ps. display_order (ps ! i) = int i"
    and "lastSecondTrain this = None"
  shows "secondTrains n this ps = map (\<lambda>k. Some (ps ! (1 + k mod (length ps - 1)))) [0..<n]"
  using secondTrains_started[OF assms(1,2) getSecondTrain_first[OF assms(1,3)], of n] assms(1)
  by simp

lemma tl_by_index:
  assumes "2 \<le> length ps"
  shows "map (\<lambda>k. ps ! (1 + k mod (length ps - 1))) [0..<length ps - 1] = tl ps"
proof -
  have "map (\<lambda>k. ps ! (1 + k mod (length ps - 1))) [0..<length ps - 1]
      = map (\<lambda>k. ps ! Suc k) [0..<length ps - 1]"
    by (rule map_cong) simp_all
  also have "\<dots> = tl ps"
    by (intro nth_equalityI) (simp_all add: nth_tl)
  finally show ?thesis .
qed

section \<open>Properties of the predictions (getPredictions)\<close>

subsection \<open>Substrings and the express check\<close>

lemma includesStr_iff: "includesStr s sub \<longleftrightarrow> (\<exists>a b. s = a @ sub @ b)"
proof (induction s)
  case Nil
  show ?case by auto
next
  case (Cons c cs)
  show ?case
  proof
    assume "includesStr (c # cs) sub"
    then consider "prefix sub (c # cs)" | "includesStr cs sub" by auto
    then show "\<exists>a b. c # cs = a @ sub @ b"
    proof cases
      case 1
      then obtain b where "c # cs = sub @ b" by (auto simp: prefix_def)
      then have "c # cs = [] @ sub @ b" by simp
      then show ?thesis by blast
    next
      case 2
      with Cons.IH obtain a b where "cs = a @ sub @ b" by blast
      then have "c # cs = (c # a) @ sub @ b" by simp
      then show ?thesis by blast
    qed
  next
    assume "\<exists>a b. c # cs = a @ sub @ b"
    then obtain a b where ab: "c # cs = a @ sub @ b" by blast
    show "includesStr (c # cs) sub"
    proof (cases a)
      case Nil
      with ab have "prefix sub (c # cs)" by (simp add: prefix_def)
      then show ?thesis by simp
    next
      case (Cons x a')
      with ab have "cs = a' @ sub @ b" by simp
      with Cons.IH have "includesStr cs sub" by blast
      then show ?thesis by simp
    qed
  qed
qed

lemma isExpressTrain_empty_trip: "\<not> isExpressTrain r []"
  by (simp add: isExpressTrain_def)

subsection \<open>The loop body\<close>

lemma waitTimeOf_eq:
  "waitTimeOf dep now = (if dep - now < 0 then dep - now + 86400 else dep - now)"
  by (simp add: waitTimeOf_def Let_def)

lemma predictionOf_cases:
  "predictionOf dt dir secs h =
     (if day_type h = dt
         \<and> (case dir of None \<Rightarrow> True | Some d \<Rightarrow> HistoricalTrainTime.direction_id h = toString d)
         \<and> 0 \<le> waitTimeOf (departure_time h) secs \<and> waitTimeOf (departure_time h) secs \<le> 3600
      then Some \<lparr>route_id = HistoricalTrainTime.route_id h,
              direction_id = HistoricalTrainTime.direction_id h,
              long_name = HistoricalTrainTime.long_name h,
              time = waitTimeOf (departure_time h) secs,
              display_order = 0,
              stop_headsign = None,
              trip_id = HistoricalTrainTime.trip_id h,
              is_express = isExpressTrain (HistoricalTrainTime.route_id h) (HistoricalTrainTime.trip_id h)\<rparr>
      else None)"
  by (cases dir) (auto simp: predictionOf_def Let_def)

lemma predictionOf_SomeD:
  assumes "predictionOf dt dir secs h = Some p"
  shows "time p = waitTimeOf (departure_time h) secs" "0 \<le> time p" "time p \<le> 3600"
    "display_order p = 0"
    "is_express p = isExpressTrain (HistoricalTrainTime.route_id h) (HistoricalTrainTime.trip_id h)"
    "trip_id p = HistoricalTrainTime.trip_id h"
    "day_type h = dt"
  using assms by (auto simp: predictionOf_cases split: if_splits)

subsection \<open>Reading the data object\<close>

lemma lookupTimes_Records_iff: "lookupTimes hist name = Records hs \<longleftrightarrow> hist name = Some hs"
  by (cases "hist name") (simp_all add: lookupTimes_def split: option.split)

lemma lookupTimes_Missing_None: "lookupTimes hist name = Missing \<Longrightarrow> hist name = None"
  by (cases "hist name") (simp_all add: lookupTimes_def)

lemma lookupTimes_plain:
  assumes "hist ''__proto__'' = None" "name \<notin> set objectPrototypeNames"
  shows "lookupTimes hist name = (case hist name of None \<Rightarrow> Missing | Some hs \<Rightarrow> Records hs)"
  using assms by (simp add: lookupTimes_def split: option.split)

subsection \<open>The two loops\<close>

lemma collectTimes_eq:
  "collectTimes dt dir secs hs acc = acc @ List.map_filter (predictionOf dt dir secs) hs"
  by (induction hs arbitrary: acc) (simp_all add: List.map_filter_simps split: option.split)

lemma set_map_filter:
  "p \<in> set (List.map_filter f xs) \<longleftrightarrow> (\<exists>x\<in>set xs. f x = Some p)"
  by (induction xs) (auto simp: List.map_filter_simps split: option.splits)

lemma set_fromStation:
  "p \<in> set (fromStation hist dt dir secs stationId) \<longleftrightarrow>
     (\<exists>hs. hist stationId = Some hs \<and> (\<exists>h\<in>set hs. predictionOf dt dir secs h = Some p))"
  by (cases "hist stationId") (simp_all add: fromStation_def set_map_filter)

lemma collectStations_eq:
  "collectStations hist dt dir secs ids acc
     = (if \<exists>stationId\<in>set ids. lookupTimes hist stationId = NotIterable then Inl TypeError
        else Inr (acc @ concat (map (fromStation hist dt dir secs) ids)))"
proof (induction ids arbitrary: acc)
  case Nil
  show ?case by simp
next
  case (Cons a ids)
  show ?case
  proof (cases "lookupTimes hist a")
    case Missing
    then have "fromStation hist dt dir secs a = []"
      by (simp add: fromStation_def lookupTimes_Missing_None)
    with Missing show ?thesis by (simp add: Cons.IH)
  next
    case (Records hs)
    then have "hist a = Some hs" by (simp add: lookupTimes_Records_iff)
    then have "fromStation hist dt dir secs a = List.map_filter (predictionOf dt dir secs) hs"
      by (simp add: fromStation_def)
    with Records show ?thesis by (simp add: Cons.IH collectTimes_eq)
  next
    case NotIterable
    then show ?thesis by simp
  qed
qed

lemma set_concat_fromStation:
  "p \<in> set (concat (map (fromStation hist dt dir secs) ids)) \<longleftrightarrow>
     (\<exists>stationId\<in>set ids. \<exists>hs. hist stationId = Some hs
        \<and> (\<exists>h\<in>set hs. predictionOf dt dir secs h = Some p))"
  by (simp add: set_fromStation)

lemma stationIdsToCheck_first:
  assumes "stationIdsToCheck maxArguments this stopId = Inr ids"
  shows "\<exists>rest. ids = stopId # rest"
proof (cases "getStation this stopId")
  case (Inl e)
  with assms show ?thesis by (simp add: stationIdsToCheck_def)
next
  case (Inr found)
  show ?thesis
  proof (cases found)
    case None
    with Inr assms show ?thesis by (auto simp: stationIdsToCheck_def)
  next
    case (Some station)
    with Inr assms show ?thesis
      by (cases "children station") (auto simp: stationIdsToCheck_def split: if_splits)
  qed
qed

lemma collectPredictions_Inr:
  assumes "stationIdsToCheck maxArguments this stopId = Inr ids"
    and "\<forall>stationId\<in>set ids. lookupTimes hist stationId \<noteq> NotIterable"
  shows "collectPredictions maxArguments hist this stopId dir now
           = Inr (concat (map (fromStation hist (getDayType now) dir (getSecondsFromMidnight now))
                            ids))"
  using assms by (simp add: collectPredictions_def collectStations_eq)

lemma collectPredictions_InrD:
  assumes "collectPredictions maxArguments hist this stopId dir now = Inr collected"
  shows "\<exists>ids. stationIdsToCheck maxArguments this stopId = Inr ids
           \<and> (\<forall>stationId\<in>set ids. lookupTimes hist stationId \<noteq> NotIterable)
           \<and> collected
               = concat (map (fromStation hist (getDayType now) dir (getSecondsFromMidnight now))
                           ids)"
proof (cases "stationIdsToCheck maxArguments this stopId")
  case (Inl e)
  with assms show ?thesis by (simp add: collectPredictions_def)
next
  case (Inr ids)
  with assms show ?thesis
    by (auto simp: collectPredictions_def collectStations_eq split: if_splits)
qed

lemma set_collectPredictions:
  assumes "collectPredictions maxArguments hist this stopId dir now = Inr collected"
    and "stationIdsToCheck maxArguments this stopId = Inr ids"
  shows "p \<in> set collected \<longleftrightarrow>
     (\<exists>stationId\<in>set ids. \<exists>hs. hist stationId = Some hs
        \<and> (\<exists>h\<in>set hs. predictionOf (getDayType now) dir (getSecondsFromMidnight now) h = Some p))"
proof -
  from collectPredictions_InrD[OF assms(1)] assms(2)
  have "collected
      = concat (map (fromStation hist (getDayType now) dir (getSecondsFromMidnight now)) ids)"
    by auto
  then show ?thesis by (simp only: set_concat_fromStation)
qed

lemma collectPredictions_unranked:
  assumes "collectPredictions maxArguments hist this stopId dir now = Inr collected"
    and "p \<in> set collected"
  shows "display_order p = 0"
proof -
  from collectPredictions_InrD[OF assms(1)] obtain ids
    where "stationIdsToCheck maxArguments this stopId = Inr ids" by blast
  from set_collectPredictions[OF assms(1) this, of p] assms(2)
  show ?thesis by (auto dest: predictionOf_SomeD(4))
qed

lemma single_station_collect:
  assumes "stationIdsToCheck maxArguments this stopId = Inr ids"
    and "hist stopId = Some hs"
    and "\<forall>stationId\<in>set (tl ids). lookupTimes hist stationId = Missing"
  shows "collectPredictions maxArguments hist this stopId dir now
           = Inr (List.map_filter (predictionOf (getDayType now) dir (getSecondsFromMidnight now))
                    hs)"
proof -
  from stationIdsToCheck_first[OF assms(1)] obtain rest where ids: "ids = stopId # rest" ..
  have first: "lookupTimes hist stopId = Records hs"
    using assms(2) by (simp add: lookupTimes_Records_iff)
  have rest: "\<forall>stationId\<in>set rest. lookupTimes hist stationId = Missing"
    using assms(3) ids by simp
  then have "\<forall>stationId\<in>set rest. hist stationId = None"
    by (simp add: lookupTimes_Missing_None)
  then have none: "concat (map (fromStation hist dt dir secs) rest) = []" for dt secs
    by (induction rest) (simp_all add: fromStation_def)
  have "\<forall>stationId\<in>set ids. lookupTimes hist stationId \<noteq> NotIterable"
    using first rest ids by auto
  from collectPredictions_Inr[OF assms(1) this] show ?thesis
    using assms(2) by (simp add: ids none fromStation_def)
qed

subsection \<open>Ranking and truncation\<close>

lemma length_assignDisplayOrder [simp]: "length (assignDisplayOrder xs) = length xs"
  by (simp add: assignDisplayOrder_def)

lemma nth_assignDisplayOrder:
  "i < length xs \<Longrightarrow> assignDisplayOrder xs ! i = (xs ! i)\<lparr>display_order := int i\<rparr>"
  by (simp add: assignDisplayOrder_def nth_enumerate_eq)

lemma map_time_assignDisplayOrder: "map time (assignDisplayOrder xs) = map time xs"
  by (intro nth_equalityI) (simp_all add: nth_assignDisplayOrder)

lemma unrank_assignDisplayOrder:
  "map (\<lambda>p. p\<lparr>display_order := 0\<rparr>) (assignDisplayOrder xs) = map (\<lambda>p. p\<lparr>display_order := 0\<rparr>) xs"
  by (intro nth_equalityI) (simp_all add: nth_assignDisplayOrder)

lemma unrank_id:
  assumes "\<forall>p\<in>set xs. display_order p = 0"
  shows "map (\<lambda>p. p\<lparr>display_order := 0\<rparr>) xs = xs"
  using assms by (induction xs) simp_all

lemma length_topPredictions:
  "length (topPredictions c) = min MAX_NUM_PREDICTIONS (length c)"
  by (simp add: topPredictions_def sortByTime_def min.commute)

lemma nth_topPredictions:
  assumes "i < length (topPredictions c)"
  shows "topPredictions c ! i = (sortByTime c ! i)\<lparr>display_order := int i\<rparr>"
proof -
  from assms have "i < length (sortByTime c)"
    by (simp add: topPredictions_def)
  with assms show ?thesis by (simp add: topPredictions_def nth_assignDisplayOrder)
qed

lemma rank_topPredictions:
  assumes "i < length (topPredictions c)"
  shows "display_order (topPredictions c ! i) = int i"
  using nth_topPredictions[OF assms] by simp

lemma sorted_topPredictions: "sorted (map time (topPredictions c))"
proof -
  have "sorted (map time (sortByTime c))"
    by (simp add: sortByTime_def)
  then have "sorted (take MAX_NUM_PREDICTIONS (map time (assignDisplayOrder (sortByTime c))))"
    by (simp add: map_time_assignDisplayOrder sorted_wrt_take)
  then show ?thesis by (simp add: topPredictions_def take_map)
qed

lemma unrank_topPredictions:
  assumes "\<forall>p\<in>set c. display_order p = 0"
  shows "map (\<lambda>p. p\<lparr>display_order := 0\<rparr>) (topPredictions c)
           = take MAX_NUM_PREDICTIONS (sortByTime c)"
proof -
  from assms have "\<forall>p\<in>set (sortByTime c). display_order p = 0"
    by (simp add: sortByTime_def)
  then have "map (\<lambda>p. p\<lparr>display_order := 0\<rparr>) (sortByTime c) = sortByTime c"
    by (rule unrank_id)
  then show ?thesis
    by (simp add: topPredictions_def unrank_assignDisplayOrder flip: take_map)
qed

lemma stable_topPredictions:
  assumes "\<forall>p\<in>set c. display_order p = 0"
  shows "prefix (filter (\<lambda>p. time p = w) (map (\<lambda>p. p\<lparr>display_order := 0\<rparr>) (topPredictions c)))
                (filter (\<lambda>p. time p = w) c)"
proof -
  have "prefix (filter (\<lambda>p. time p = w) (take MAX_NUM_PREDICTIONS (sortByTime c)))
               (filter (\<lambda>p. time p = w) (sortByTime c))"
    by (intro filter_mono_prefix take_is_prefix)
  also have "filter (\<lambda>p. time p = w) (sortByTime c) = filter (\<lambda>p. time p = w) c"
    unfolding sortByTime_def by (rule sort_key_stable)
  finally show ?thesis by (simp only: unrank_topPredictions[OF assms])
qed

lemma set_topPredictions_subset:
  assumes "\<forall>p\<in>set c. display_order p = 0"
  shows "set (map (\<lambda>p. p\<lparr>display_order := 0\<rparr>) (topPredictions c)) \<subseteq> set c"
proof -
  have "set (take MAX_NUM_PREDICTIONS (sortByTime c)) \<subseteq> set (sortByTime c)"
    by (rule set_take_subset)
  then show ?thesis by (simp only: unrank_topPredictions[OF assms]) (simp add: sortByTime_def)
qed

lemma set_topPredictions_all:
  assumes "\<forall>p\<in>set c. display_order p = 0" "length c \<le> MAX_NUM_PREDICTIONS"
  shows "set (map (\<lambda>p. p\<lparr>display_order := 0\<rparr>) (topPredictions c)) = set c"
  using assms(2) by (simp only: unrank_topPredictions[OF assms(1)]) (simp add: sortByTime_def)

subsection \<open>The call\<close>

lemma getPredictions_None:
  "historicalData this = None \<Longrightarrow> getPredictions maxArguments this stopId dir now = Inr []"
  by (simp add: getPredictions_def)

lemma getPredictions_Inr:
  assumes "historicalData this = Some hist"
    and "collectPredictions maxArguments hist this stopId dir now = Inr collected"
  shows "getPredictions maxArguments this stopId dir now = Inr (topPredictions collected)"
  using assms by (simp add: getPredictions_def)

lemma getPredictions_Inl:
  assumes "historicalData this = Some hist"
    and "collectPredictions maxArguments hist this stopId dir now = Inl e"
  shows "getPredictions maxArguments this stopId dir now = Inl e"
  using assms by (simp add: getPredictions_def)

lemma getPredictions_InrD:
  assumes "getPredictions maxArguments this stopId dir now = Inr ps"
  shows "(historicalData this = None \<and> ps = [])
       \<or> (\<exists>hist collected. historicalData this = Some hist
             \<and> collectPredictions maxArguments hist this stopId dir now = Inr collected
             \<and> ps = topPredictions collected)"
  using assms by (auto simp: getPredictions_def split: option.splits sum.splits)

lemma getPredictions_top:
  assumes "getPredictions maxArguments this stopId dir now = Inr ps"
  shows "\<exists>collected. ps = topPredictions collected"
proof -
  have "[] = topPredictions []"
    by (simp add: topPredictions_def sortByTime_def assignDisplayOrder_def)
  with getPredictions_InrD[OF assms] show ?thesis by blast
qed

lemma ranked_getPredictions:
  assumes "getPredictions maxArguments this stopId dir now = Inr ps"
  shows "\<forall>i<length ps. display_order (ps ! i) = int i"
  using getPredictions_top[OF assms] by (auto simp: rank_topPredictions)

lemma sorted_getPredictions:
  assumes "getPredictions maxArguments this stopId dir now = Inr ps"
  shows "sorted (map time ps)"
  using getPredictions_top[OF assms] by (auto simp: sorted_topPredictions)

lemma length_getPredictions:
  assumes "getPredictions maxArguments this stopId dir now = Inr ps"
  shows "length ps \<le> MAX_NUM_PREDICTIONS"
  using getPredictions_top[OF assms] by (auto simp: length_topPredictions)

section \<open>Properties of loading (loadData)\<close>

lemma addChildIds_eq: "addChildIds cs ids = ids \<union> set cs"
  by (induction cs arbitrary: ids) auto

lemma collectChildIds_eq:
  "collectChildIds entries ids
     = ((if list_all okEntry entries then Inr () else Inl TypeError),
        ids \<union> set (concat (map entryChildIds (takeWhile okEntry entries))))"
proof (induction entries arbitrary: ids)
  case Nil
  show ?case by simp
next
  case (Cons entry entries)
  show ?case
  proof (cases entry)
    case NullEntry
    then show ?thesis by (simp add: okEntry_def)
  next
    case (StationEntry s)
    then show ?thesis
      by (cases "children s")
        (auto simp: Cons.IH okEntry_def entryChildIds_def addChildIds_eq)
  qed
qed

lemma buildChildStationSet_array:
  assumes "stations this = StationArray entries"
  shows "buildChildStationSet this
           = ((if list_all okEntry entries then Inr () else Inl TypeError),
              this\<lparr>childStationIds :=
                     set (concat (map entryChildIds (takeWhile okEntry entries)))\<rparr>)"
  using assms by (simp add: buildChildStationSet_def collectChildIds_eq)

lemma buildChildStationSet_other:
  assumes "stations this = StationsNotIterable"
  shows "buildChildStationSet this = (Inl TypeError, this\<lparr>childStationIds := {}\<rparr>)"
  using assms by (simp add: buildChildStationSet_def)

lemma historicalData_buildChildStationSet:
  "historicalData (snd (buildChildStationSet this)) = historicalData this"
  by (cases "stations this")
    (simp_all add: buildChildStationSet_other buildChildStationSet_array)

lemma historicalData_loaded:
  "historicalData (snd (loadData this (Inr c) stationsDocument))
     = Some (decompressHistoricalData c)"
  by (cases stationsDocument)
    (simp_all add: loadData_def historicalData_buildChildStationSet)

lemma okEntry_stations:
  "list_all okEntry (map StationEntry sts)
     \<longleftrightarrow> list_all (\<lambda>s. children s \<noteq> ChildrenNotIterable) sts"
  by (induction sts) (simp_all add: okEntry_def)

lemma childIds_stations:
  "set (concat (map entryChildIds (map StationEntry sts))) = snd ` set (childEdges sts)"
proof (induction sts)
  case Nil
  show ?case by (simp add: childEdges_def)
next
  case (Cons s sts)
  have edges: "set (childEdges (s # sts))
      = (case children s of ChildIds cs \<Rightarrow> Pair (stop_id s) ` set cs | _ \<Rightarrow> {})
          \<union> set (childEdges sts)"
    by (simp add: childEdges_def split: children_value.split)
  from Cons.IH show ?case
    by (cases "children s") (simp_all add: edges entryChildIds_def image_Un image_image)
qed

lemma filterStations_stations:
  "filterStations ids (map StationEntry sts) = Inr (filter (\<lambda>s. stop_id s \<notin> ids) sts)"
  by (induction sts) simp_all

lemma decompress_trip_id:
  assumes "decompressHistoricalData c stopId = Some hs" "h \<in> set hs"
  shows "HistoricalTrainTime.trip_id h = []"
  using assms by (auto simp: decompressHistoricalData_def decompressEntry_def split: prod.splits)

section \<open>The worked example, evaluated\<close>

lemma historicalData_example:
  "historicalData exampleProvider = Some (decompressHistoricalData exampleData)"
  unfolding exampleProvider_def by (rule historicalData_loaded)

lemma stations_example: "stations exampleProvider = StationArray (map StationEntry exampleStations)"
  by (simp add: exampleProvider_def loadData_def buildChildStationSet_def split: prod.split)

lemma fresh_example: "lastSecondTrain exampleProvider = None"
  by (simp add: exampleProvider_def loadData_def buildChildStationSet_def newMTAProvider_def
      split: prod.split)

lemma getStation_example_P:
  "getStation exampleProvider ''P'' = Inr (Some (exampleStation ''P'' (ChildIds [''C1'', ''C2''])))"
  by (simp add: getStation_def stations_example exampleStations_def exampleStation_def)

lemma getStation_example_C1:
  "getStation exampleProvider ''C1'' = Inr (Some (exampleStation ''C1'' NoChildren))"
  by (simp add: getStation_def stations_example exampleStations_def exampleStation_def)

lemma ids_example_P:
  "stationIdsToCheck exampleLimit exampleProvider ''P'' = Inr [''P'', ''C1'', ''C2'']"
  by (simp add: stationIdsToCheck_def getStation_example_P exampleStation_def exampleLimit_def)

lemma ids_example_C1:
  "stationIdsToCheck exampleLimit exampleProvider ''C1'' = Inr [''C1'']"
  by (simp add: stationIdsToCheck_def getStation_example_C1 exampleStation_def)

lemma plain_example:
  "\<forall>stationId\<in>set [''P'', ''C1'', ''C2''].
     lookupTimes (decompressHistoricalData exampleData) stationId \<noteq> NotIterable"
  by (simp add: lookupTimes_def decompressHistoricalData_def exampleData_def)

lemma collected_example_P:
  "collectPredictions exampleLimit (decompressHistoricalData exampleData) exampleProvider ''P''
       None exampleNow
     = Inr (concat (map (fromStation (decompressHistoricalData exampleData)
                           (getDayType exampleNow) None (getSecondsFromMidnight exampleNow))
                      [''P'', ''C1'', ''C2'']))"
  by (rule collectPredictions_Inr[OF ids_example_P plain_example])

lemma collected_example_C1:
  "collectPredictions exampleLimit (decompressHistoricalData exampleData) exampleProvider ''C1''
       None exampleNow
     = Inr (concat (map (fromStation (decompressHistoricalData exampleData)
                           (getDayType exampleNow) None (getSecondsFromMidnight exampleNow))
                      [''C1'']))"
  using plain_example by (intro collectPredictions_Inr[OF ids_example_C1]) simp

lemma example_P:
  "getPredictions exampleLimit exampleProvider ''P'' None exampleNow = Inr examplePredictions"
  using getPredictions_Inr[OF historicalData_example collected_example_P]
  by (simp add: examplePredictions_def)

lemma example_C1:
  "getPredictions exampleLimit exampleProvider ''C1'' None exampleNow = Inr examplePredictionsC1"
  using getPredictions_Inr[OF historicalData_example collected_example_C1]
  by (simp add: examplePredictionsC1_def)

lemma example_collected_length:
  "length (concat (map (fromStation (decompressHistoricalData exampleData)
                          (getDayType exampleNow) None (getSecondsFromMidnight exampleNow))
                     [''P'', ''C1'', ''C2''])) = 8"
  by code_simp

lemma example_P_entries:
  "map (\<lambda>p. (route_id p, time p, display_order p)) examplePredictions
     = [(''4'', 60, 0), (''6'', 60, 1), (''6'', 150, 2), (''4'', 300, 3), (''6'', 300, 4),
        (''4'', 350, 5)]"
proof -
  have "map (\<lambda>p. (route_id p, time p, display_order p))
      (topPredictions (concat (map (fromStation (decompressHistoricalData exampleData)
         (getDayType exampleNow) None (getSecondsFromMidnight exampleNow))
         [''P'', ''C1'', ''C2''])))
     = [(''4'', 60, 0), (''6'', 60, 1), (''6'', 150, 2), (''4'', 300, 3), (''6'', 300, 4),
        (''4'', 350, 5)]"
    by code_simp
  with getPredictions_Inr[OF historicalData_example collected_example_P] example_P
  show ?thesis by simp
qed

lemma length_example_P: "length examplePredictions = 6"
  using arg_cong[OF example_P_entries, of length] by simp

lemma example_C1_entries:
  "map (\<lambda>p. (route_id p, time p, display_order p)) examplePredictionsC1
     = [(''6'', 60, 0), (''6'', 150, 1)]"
proof -
  have "map (\<lambda>p. (route_id p, time p, display_order p))
      (topPredictions (concat (map (fromStation (decompressHistoricalData exampleData)
         (getDayType exampleNow) None (getSecondsFromMidnight exampleNow)) [''C1''])))
     = [(''6'', 60, 0), (''6'', 150, 1)]"
    by code_simp
  with getPredictions_Inr[OF historicalData_example collected_example_C1] example_C1
  show ?thesis by simp
qed

lemma length_example_C1: "length examplePredictionsC1 = 2"
  using arg_cong[OF example_C1_entries, of length] by simp

section \<open>The claims\<close>

text \<open>
  C1. In a call of \<open>getPredictions\<close> that collects its predictions, for a departure
  record that reaches the wait computation (it belongs to the stop or to one of its
  listed children, and has the day type of the instant and the direction asked for), the
  wait is the departure time minus the seconds since midnight, with 86400 added exactly
  when that difference is negative. The record is pushed to the collected predictions,
  with that wait as its \<open>time\<close>, if and only if the wait lies between 0 and 3600: a wait
  of 3600 is in, a wait of 3601 is out, and a departure at second 0 seen at second 86399
  has wait 1 and is in. The call returns, and when the collection holds no more entries
  than the display capacity, the same holds of the returned list.
\<close>

theorem waitTime_window:
  assumes "historicalData this = Some hist"
    and "collectPredictions maxArguments hist this stopId dir now = Inr collected"
    and "stationIdsToCheck maxArguments this stopId = Inr ids" "stationId \<in> set ids"
    and "hist stationId = Some hs" "h \<in> set hs"
    and "day_type h = getDayType now"
    and "case dir of None \<Rightarrow> True | Some d \<Rightarrow> HistoricalTrainTime.direction_id h = toString d"
  shows "waitTimeOf (departure_time h) (getSecondsFromMidnight now)
           = (if departure_time h - getSecondsFromMidnight now < 0
              then departure_time h - getSecondsFromMidnight now + 86400
              else departure_time h - getSecondsFromMidnight now)
       \<and> ((\<exists>p\<in>set collected.
              predictionOf (getDayType now) dir (getSecondsFromMidnight now) h = Some p
              \<and> time p = waitTimeOf (departure_time h) (getSecondsFromMidnight now))
            \<longleftrightarrow> 0 \<le> waitTimeOf (departure_time h) (getSecondsFromMidnight now)
              \<and> waitTimeOf (departure_time h) (getSecondsFromMidnight now) \<le> 3600)
       \<and> (waitTimeOf (departure_time h) (getSecondsFromMidnight now) = 3600 \<longrightarrow>
            predictionOf (getDayType now) dir (getSecondsFromMidnight now) h \<noteq> None)
       \<and> (waitTimeOf (departure_time h) (getSecondsFromMidnight now) = 3601 \<longrightarrow>
            predictionOf (getDayType now) dir (getSecondsFromMidnight now) h = None)
       \<and> (departure_time h = 0 \<and> getSecondsFromMidnight now = 86399 \<longrightarrow>
            (\<exists>p\<in>set collected.
               predictionOf (getDayType now) dir (getSecondsFromMidnight now) h = Some p
               \<and> time p = 1))
       \<and> (\<exists>ps. getPredictions maxArguments this stopId dir now = Inr ps
            \<and> (length collected \<le> MAX_NUM_PREDICTIONS \<longrightarrow>
                 ((\<exists>q\<in>set ps.
                     predictionOf (getDayType now) dir (getSecondsFromMidnight now) h
                       = Some (q\<lparr>display_order := 0\<rparr>))
                  \<longleftrightarrow> 0 \<le> waitTimeOf (departure_time h) (getSecondsFromMidnight now)
                    \<and> waitTimeOf (departure_time h) (getSecondsFromMidnight now) \<le> 3600)))"
proof -
  let ?secs = "getSecondsFromMidnight now"
  let ?w = "waitTimeOf (departure_time h) ?secs"
  let ?pred = "predictionOf (getDayType now) dir ?secs h"
  have some_iff: "(\<exists>p. ?pred = Some p) \<longleftrightarrow> 0 \<le> ?w \<and> ?w \<le> 3600"
    using assms(7,8) by (simp add: predictionOf_cases)
  have pushed: "p \<in> set collected" if "?pred = Some p" for p
    using that assms(4-6) by (auto simp: set_collectPredictions[OF assms(2,3)])
  have unranked: "\<forall>p\<in>set collected. display_order p = 0"
    using collectPredictions_unranked[OF assms(2)] by blast
  have window: "(\<exists>p\<in>set collected. ?pred = Some p \<and> time p = ?w) \<longleftrightarrow> 0 \<le> ?w \<and> ?w \<le> 3600"
    using some_iff pushed predictionOf_SomeD(1) by blast
  have formula: "?w = (if departure_time h - ?secs < 0 then departure_time h - ?secs + 86400
                       else departure_time h - ?secs)"
    by (rule waitTimeOf_eq)
  have at3600: "?w = 3600 \<longrightarrow> ?pred \<noteq> None"
    using some_iff by auto
  have at3601: "?w = 3601 \<longrightarrow> ?pred = None"
    using some_iff by (cases ?pred) auto
  have midnight: "departure_time h = 0 \<and> ?secs = 86399 \<longrightarrow>
      (\<exists>p\<in>set collected. ?pred = Some p \<and> time p = 1)"
  proof
    assume "departure_time h = 0 \<and> ?secs = 86399"
    then have "?w = 1" by (simp add: waitTimeOf_eq)
    with window show "\<exists>p\<in>set collected. ?pred = Some p \<and> time p = 1" by simp
  qed
  have call: "getPredictions maxArguments this stopId dir now = Inr (topPredictions collected)"
    by (rule getPredictions_Inr[OF assms(1,2)])
  have inlist: "length collected \<le> MAX_NUM_PREDICTIONS \<longrightarrow>
      ((\<exists>q\<in>set (topPredictions collected). ?pred = Some (q\<lparr>display_order := 0\<rparr>))
        \<longleftrightarrow> 0 \<le> ?w \<and> ?w \<le> 3600)"
  proof
    assume small: "length collected \<le> MAX_NUM_PREDICTIONS"
    have "(\<exists>q\<in>set (topPredictions collected). ?pred = Some (q\<lparr>display_order := 0\<rparr>))
        \<longleftrightarrow> (\<exists>p\<in>set (map (\<lambda>p. p\<lparr>display_order := 0\<rparr>) (topPredictions collected)).
               ?pred = Some p)"
      by auto
    also have "\<dots> \<longleftrightarrow> (\<exists>p\<in>set collected. ?pred = Some p)"
      by (simp only: set_topPredictions_all[OF unranked small])
    also have "\<dots> \<longleftrightarrow> (\<exists>p. ?pred = Some p)"
      using pushed by blast
    finally show "(\<exists>q\<in>set (topPredictions collected).
        ?pred = Some (q\<lparr>display_order := 0\<rparr>)) \<longleftrightarrow> 0 \<le> ?w \<and> ?w \<le> 3600"
      using some_iff by simp
  qed
  have returned: "\<exists>ps. getPredictions maxArguments this stopId dir now = Inr ps
      \<and> (length collected \<le> MAX_NUM_PREDICTIONS \<longrightarrow>
           ((\<exists>q\<in>set ps. ?pred = Some (q\<lparr>display_order := 0\<rparr>))
             \<longleftrightarrow> 0 \<le> ?w \<and> ?w \<le> 3600))"
    using call inlist by blast
  show ?thesis
    by (intro conjI) (fact formula window at3600 at3601 midnight returned)+
qed

text \<open>An instance: the record of stop \<open>P\<close> that departs at 3650, seen at second 50, has a
  wait of exactly 3600 and is pushed.\<close>

theorem waitTime_window_witness:
  "historicalData exampleProvider = Some (decompressHistoricalData exampleData)
   \<and> collectPredictions exampleLimit (decompressHistoricalData exampleData) exampleProvider ''P''
         None exampleNow
       = Inr (concat (map (fromStation (decompressHistoricalData exampleData)
                             (getDayType exampleNow) None (getSecondsFromMidnight exampleNow))
                        [''P'', ''C1'', ''C2'']))
   \<and> stationIdsToCheck exampleLimit exampleProvider ''P'' = Inr [''P'', ''C1'', ''C2'']
   \<and> decompressHistoricalData exampleData ''P''
       = Some (map (decompressEntry (names exampleData)) entriesP)
   \<and> decompressEntry (names exampleData) (''4'', ''0'', 0, 3650, ''w'')
       \<in> set (map (decompressEntry (names exampleData)) entriesP)
   \<and> day_type (decompressEntry (names exampleData) (''4'', ''0'', 0, 3650, ''w''))
       = getDayType exampleNow
   \<and> waitTimeOf (departure_time (decompressEntry (names exampleData) (''4'', ''0'', 0, 3650, ''w'')))
        (getSecondsFromMidnight exampleNow) = 3600
   \<and> predictionOf (getDayType exampleNow) None (getSecondsFromMidnight exampleNow)
        (decompressEntry (names exampleData) (''4'', ''0'', 0, 3650, ''w'')) \<noteq> None"
proof -
  let ?h = "decompressEntry (names exampleData) (''4'', ''0'', 0, 3650, ''w'')"
  have 1: "historicalData exampleProvider = Some (decompressHistoricalData exampleData)"
    by (rule historicalData_example)
  have 2: "''P'' \<in> set [''P'', ''C1'', ''C2'']"
    by simp
  have 3: "decompressHistoricalData exampleData ''P''
      = Some (map (decompressEntry (names exampleData)) entriesP)"
    by (simp add: decompressHistoricalData_def exampleData_def)
  have 4: "?h \<in> set (map (decompressEntry (names exampleData)) entriesP)"
    by (simp add: entriesP_def)
  have 5: "day_type ?h = getDayType exampleNow"
    by (simp add: decompressEntry_def dayTypeMap_def getDayType_def exampleNow_def)
  have 6: "case None of None \<Rightarrow> True
           | Some d \<Rightarrow> HistoricalTrainTime.direction_id ?h = toString d"
    by simp
  have 7: "waitTimeOf (departure_time ?h) (getSecondsFromMidnight exampleNow) = 3600"
    by (simp add: decompressEntry_def waitTimeOf_def getSecondsFromMidnight_def exampleNow_def)
  from waitTime_window[OF 1 collected_example_P ids_example_P 2 3 4 5 6] 7
  have "predictionOf (getDayType exampleNow) None (getSecondsFromMidnight exampleNow) ?h \<noteq> None"
    by blast
  with 1 collected_example_P ids_example_P 3 4 5 7 show ?thesis by blast
qed

text \<open>
  C2. On a list of \<open>N \<ge> 2\<close> predictions whose entry at index \<open>i\<close> has rank \<open>i\<close>, passed
  unchanged to successive calls of \<open>getSecondTrain\<close>, the entries returned advance
  cyclically through the indices \<open>1, \<dots>, N - 1\<close>, whatever the rotation state at the first
  call. From the empty state the \<open>k\<close>-th call (counting from 0) returns the entry of rank
  \<open>1 + k mod (N - 1)\<close>: the ranks are \<open>1, 2, \<dots>, N - 1, 1, 2, \<dots>\<close>, and the first
  \<open>N - 1\<close> calls return the entries after the first one, each once and in order.
\<close>

theorem getSecondTrain_cycle:
  assumes "2 \<le> length ps" "\<forall>i<length ps. display_order (ps ! i) = int i"
  shows "(\<exists>s. \<forall>n. secondTrains n this ps
              = map (\<lambda>k. Some (ps ! (1 + (s + k) mod (length ps - 1)))) [0..<n])
       \<and> (lastSecondTrain this = None \<longrightarrow>
            (\<forall>n. secondTrains n this ps
               = map (\<lambda>k. Some (ps ! (1 + k mod (length ps - 1)))) [0..<n])
          \<and> (\<forall>n. map (map_option display_order) (secondTrains n this ps)
               = map (\<lambda>k. Some (1 + int (k mod (length ps - 1)))) [0..<n])
          \<and> secondTrains (length ps - 1) this ps = map Some (tl ps))"
proof (intro conjI impI allI)
  from getSecondTrain_selects[OF assms, of this] obtain j where j: "1 \<le> j" "j < length ps"
    "getSecondTrain this ps = (Some (ps ! j), this\<lparr>lastSecondTrain := Some (ps ! j)\<rparr>)"
    by blast
  show "\<exists>s. \<forall>n. secondTrains n this ps
          = map (\<lambda>k. Some (ps ! (1 + (s + k) mod (length ps - 1)))) [0..<n]"
    using secondTrains_started[OF assms j(3,1,2)] by blast
next
  fix n
  assume fresh: "lastSecondTrain this = None"
  show "secondTrains n this ps = map (\<lambda>k. Some (ps ! (1 + k mod (length ps - 1)))) [0..<n]"
    by (rule secondTrains_fresh[OF assms fresh])
next
  fix n
  assume fresh: "lastSecondTrain this = None"
  have "display_order (ps ! (1 + k mod (length ps - 1))) = 1 + int (k mod (length ps - 1))" for k
    using assms(2) slot_bound[OF assms(1), of k] by simp
  then show "map (map_option display_order) (secondTrains n this ps)
           = map (\<lambda>k. Some (1 + int (k mod (length ps - 1)))) [0..<n]"
    unfolding secondTrains_fresh[OF assms fresh] by (simp add: comp_def)
next
  assume fresh: "lastSecondTrain this = None"
  have "secondTrains (length ps - 1) this ps
      = map Some (map (\<lambda>k. ps ! (1 + k mod (length ps - 1))) [0..<length ps - 1])"
    unfolding secondTrains_fresh[OF assms fresh] by (simp add: comp_def)
  then show "secondTrains (length ps - 1) this ps = map Some (tl ps)"
    by (simp only: tl_by_index[OF assms(1)])
qed

text \<open>An instance: twelve calls on the six predictions of stop \<open>P\<close>.\<close>

theorem getSecondTrain_cycle_witness:
  "2 \<le> length examplePredictions
   \<and> map display_order examplePredictions = [0, 1, 2, 3, 4, 5]
   \<and> lastSecondTrain exampleProvider = None
   \<and> map (map_option display_order) (secondTrains 12 exampleProvider examplePredictions)
       = [Some 1, Some 2, Some 3, Some 4, Some 5, Some 1, Some 2, Some 3, Some 4, Some 5,
          Some 1, Some 2]"
proof -
  let ?ps = "examplePredictions"
  have len: "2 \<le> length ?ps" by (simp add: length_example_P)
  have ranks: "map display_order ?ps = [0, 1, 2, 3, 4, 5]"
    using arg_cong[OF example_P_entries, of "map (\<lambda>t. snd (snd t))"] by (simp add: comp_def)
  from getSecondTrain_cycle[OF len ranked_getPredictions[OF example_P], of exampleProvider]
    fresh_example
  have "map (map_option display_order) (secondTrains 12 exampleProvider ?ps)
      = map (\<lambda>k. Some (1 + int (k mod (length ?ps - 1)))) [0..<12]"
    by blast
  also have "\<dots> = [Some 1, Some 2, Some 3, Some 4, Some 5, Some 1, Some 2, Some 3, Some 4,
      Some 5, Some 1, Some 2]"
    unfolding length_example_P by code_simp
  finally show ?thesis using len ranks fresh_example by simp
qed

text \<open>
  C3. On a list of at least two predictions whose entry at index \<open>i\<close> has rank \<open>i\<close>, and
  in every rotation state (empty, remembering a rank of the list, remembering a rank that
  the list does not have), \<open>getSecondTrain\<close> returns an entry of the list whose rank is not
  0, and remembers it.
\<close>

theorem getSecondTrain_never_first:
  assumes "2 \<le> length predictions"
    and "\<forall>i<length predictions. display_order (predictions ! i) = int i"
  shows "\<exists>q. fst (getSecondTrain this predictions) = Some q \<and> q \<in> set predictions
           \<and> display_order q \<noteq> 0
           \<and> lastSecondTrain (snd (getSecondTrain this predictions)) = Some q"
proof -
  have one: "predictions ! 1 \<in> set predictions" "display_order (predictions ! 1) \<noteq> 0"
    using assms by auto
  show ?thesis
  proof (cases "lastSecondTrain this")
    case None
    with assms(1) one show ?thesis by (simp add: getSecondTrain_def)
  next
    case (Some l)
    show ?thesis
    proof (cases "findNext predictions l 0")
      case None
      with Some assms(1) one show ?thesis by (simp add: getSecondTrain_def)
    next
      case (Some q)
      with findNext_range[OF assms(1) Some] obtain j
        where j: "1 \<le> j" "j < length predictions" "q = predictions ! j" by blast
      with assms(2) have "display_order q = int j" "q \<in> set predictions" by auto
      with j \<open>lastSecondTrain this = Some l\<close> Some assms(1) show ?thesis
        by (simp add: getSecondTrain_def)
    qed
  qed
qed

text \<open>An instance: the state remembers rank 5 and the list has two entries.\<close>

theorem getSecondTrain_never_first_witness:
  "2 \<le> length examplePredictionsC1
   \<and> map display_order examplePredictionsC1 = [0, 1]
   \<and> map_option display_order
        (lastSecondTrain (exampleProvider\<lparr>lastSecondTrain := Some (examplePredictions ! 5)\<rparr>))
       = Some 5
   \<and> map_option display_order
        (fst (getSecondTrain
           (exampleProvider\<lparr>lastSecondTrain := Some (examplePredictions ! 5)\<rparr>)
           examplePredictionsC1)) = Some 1"
proof -
  let ?ps = "examplePredictionsC1"
  let ?prov = "exampleProvider\<lparr>lastSecondTrain := Some (examplePredictions ! 5)\<rparr>"
  have len: "2 \<le> length ?ps" by (simp add: length_example_C1)
  have ranks: "map display_order ?ps = [0, 1]"
    using arg_cong[OF example_C1_entries, of "map (\<lambda>t. snd (snd t))"] by (simp add: comp_def)
  have stale: "map_option display_order (lastSecondTrain ?prov) = Some 5"
    using ranked_getPredictions[OF example_P] by (simp add: length_example_P)
  from getSecondTrain_never_first[OF len ranked_getPredictions[OF example_C1], of ?prov]
  obtain q where q: "fst (getSecondTrain ?prov ?ps) = Some q" "q \<in> set ?ps" "display_order q \<noteq> 0"
    by blast
  from q(2) have "display_order q \<in> set (map display_order ?ps)" by simp
  with q(3) have "display_order q = 1" unfolding ranks by simp
  with q(1) have "map_option display_order (fst (getSecondTrain ?prov ?ps)) = Some 1" by simp
  with len ranks stale show ?thesis by blast
qed

text \<open>
  C4, amended. \<open>loadData\<close> assigns each table as soon as its value has arrived and undoes
  nothing. A failure before line 29 assigns (the fetch, the parse or the decompression of
  the historical document) modifies nothing. A failure of the fetch or the parse of the
  stations document leaves \<open>historicalData\<close> holding the new decompressed data, and the
  stations, the child ids and the rotation state as they were. A stations document that
  parses and on which \<open>buildChildStationSet\<close> raises (it cannot be iterated, or an entry
  is \<open>null\<close>, or the \<open>children\<close> of a station cannot be iterated) leaves both
  \<open>historicalData\<close> and \<open>stations\<close> replaced, and the child ids cleared and refilled with
  the children of the entries before the one that raises. When nothing raises, both
  tables are replaced and the child ids are those of all the entries.
\<close>

theorem loadData_outcomes:
  "loadData this (Inl e) stationsDocument = (Inl e, this)
   \<and> loadData this (Inr c) (Inl e)
       = (Inl e, this\<lparr>historicalData := Some (decompressHistoricalData c)\<rparr>)
   \<and> loadData this (Inr c) (Inr StationsNotIterable)
       = (Inl TypeError,
          this\<lparr>historicalData := Some (decompressHistoricalData c),
               stations := StationsNotIterable, childStationIds := {}\<rparr>)
   \<and> loadData this (Inr c) (Inr (StationArray entries))
       = ((if list_all okEntry entries then Inr () else Inl TypeError),
          this\<lparr>historicalData := Some (decompressHistoricalData c),
               stations := StationArray entries,
               childStationIds :=
                 set (concat (map entryChildIds (takeWhile okEntry entries)))\<rparr>)"
  by (simp add: loadData_def buildChildStationSet_other buildChildStationSet_array)

text \<open>An instance: on a new provider, a failure at the historical document, a failure
  at the fetch of the stations document, and a stations document whose second station
  has the number 5 as \<open>children\<close>.\<close>

theorem loadData_outcomes_witness:
  "loadData newMTAProvider (Inl NetworkError) (Inr (StationArray brokenEntries))
     = (Inl NetworkError, newMTAProvider)
   \<and> stations (snd (loadData newMTAProvider (Inr exampleData) (Inl NetworkError)))
       = StationArray []
   \<and> fst (loadData newMTAProvider (Inr exampleData) (Inr (StationArray brokenEntries)))
       = Inl TypeError
   \<and> stations (snd (loadData newMTAProvider (Inr exampleData) (Inr (StationArray brokenEntries))))
       = StationArray brokenEntries
   \<and> childStationIds
        (snd (loadData newMTAProvider (Inr exampleData) (Inr (StationArray brokenEntries))))
       = {''C1'', ''C2''}"
proof -
  have "\<not> list_all okEntry brokenEntries"
    by (simp add: brokenEntries_def okEntry_def exampleStation_def)
  moreover have "set (concat (map entryChildIds (takeWhile okEntry brokenEntries)))
      = {''C1'', ''C2''}"
    by (simp add: brokenEntries_def okEntry_def entryChildIds_def exampleStation_def)
  ultimately show ?thesis
    using loadData_outcomes[of newMTAProvider NetworkError "Inr (StationArray brokenEntries)"
      exampleData brokenEntries]
    by (simp add: newMTAProvider_def)
qed

text \<open>A load that fails at the stations document is not all-or-nothing: on a new
  provider it ends with the error, the new historical data and the old (empty) stations,
  and \<open>getPredictions\<close> then answers from the new data.\<close>

theorem loadData_partial_counterexample:
  "fst (loadData newMTAProvider (Inr exampleData) (Inl SyntaxError)) = Inl SyntaxError
   \<and> historicalData (snd (loadData newMTAProvider (Inr exampleData) (Inl SyntaxError)))
       \<noteq> historicalData newMTAProvider
   \<and> stations (snd (loadData newMTAProvider (Inr exampleData) (Inl SyntaxError)))
       = stations newMTAProvider
   \<and> map_sum id (map time)
        (getPredictions exampleLimit
           (snd (loadData newMTAProvider (Inr exampleData) (Inl SyntaxError)))
           ''C1'' None exampleNow) = Inr [60, 150]"
proof -
  let ?prov = "snd (loadData newMTAProvider (Inr exampleData) (Inl SyntaxError))"
  have hist: "historicalData ?prov = Some (decompressHistoricalData exampleData)"
    by (rule historicalData_loaded)
  have "getStation ?prov ''C1'' = Inr None"
    by (simp add: getStation_def loadData_def newMTAProvider_def)
  then have ids: "stationIdsToCheck exampleLimit ?prov ''C1'' = Inr [''C1'']"
    by (simp add: stationIdsToCheck_def)
  have "\<forall>stationId\<in>set [''C1''].
      lookupTimes (decompressHistoricalData exampleData) stationId \<noteq> NotIterable"
    using plain_example by simp
  from getPredictions_Inr[OF hist collectPredictions_Inr[OF ids this]]
  have "getPredictions exampleLimit ?prov ''C1'' None exampleNow
      = Inr (topPredictions (concat (map (fromStation (decompressHistoricalData exampleData)
          (getDayType exampleNow) None (getSecondsFromMidnight exampleNow)) [''C1''])))" .
  moreover have "map time (topPredictions (concat (map (fromStation
      (decompressHistoricalData exampleData)
      (getDayType exampleNow) None (getSecondsFromMidnight exampleNow)) [''C1''])))
      = [60, 150]"
    by code_simp
  ultimately have "map_sum id (map time) (getPredictions exampleLimit ?prov ''C1'' None exampleNow)
      = Inr [60, 150]"
    by simp
  then show ?thesis
    by (simp add: loadData_def newMTAProvider_def)
qed

text \<open>
  C5, amended. \<open>loadData\<close> does not look at the parent/child graph: for every station
  list (an array of station objects whose \<open>children\<close> are absent or arrays of ids),
  whenever both documents arrive the load succeeds and stores the list as it is, also
  when a station is its own descendant; \<open>getStations\<close> then lists the stations that no
  \<open>children\<close> field names.
\<close>

theorem loadData_no_topology_check:
  assumes "list_all (\<lambda>s. children s \<noteq> ChildrenNotIterable) sts"
  shows "fst (loadData this (Inr c) (Inr (StationArray (map StationEntry sts)))) = Inr ()
   \<and> stations (snd (loadData this (Inr c) (Inr (StationArray (map StationEntry sts)))))
       = StationArray (map StationEntry sts)
   \<and> getStations (snd (loadData this (Inr c) (Inr (StationArray (map StationEntry sts)))))
       = Inr (filter (\<lambda>s. stop_id s \<notin> snd ` set (childEdges sts)) sts)"
proof -
  have all: "list_all okEntry (map StationEntry sts)"
    using assms by (simp only: okEntry_stations)
  then have whole: "takeWhile okEntry (map StationEntry sts) = map StationEntry sts"
    by (simp add: list_all_iff takeWhile_eq_all_conv)
  have ids: "set (concat (map entryChildIds (takeWhile okEntry (map StationEntry sts))))
      = snd ` set (childEdges sts)"
    unfolding whole by (rule childIds_stations)
  let ?assigned = "this\<lparr>historicalData := Some (decompressHistoricalData c),
      stations := StationArray (map StationEntry sts)\<rparr>"
  have "buildChildStationSet ?assigned
      = ((if list_all okEntry (map StationEntry sts) then Inr () else Inl TypeError),
         ?assigned\<lparr>childStationIds :=
           set (concat (map entryChildIds (takeWhile okEntry (map StationEntry sts))))\<rparr>)"
    by (rule buildChildStationSet_array) simp
  then have built: "buildChildStationSet ?assigned
      = (Inr (), ?assigned\<lparr>childStationIds := snd ` set (childEdges sts)\<rparr>)"
    by (simp only: all ids if_True)
  have "loadData this (Inr c) (Inr (StationArray (map StationEntry sts)))
      = buildChildStationSet ?assigned"
    by (simp add: loadData_def)
  then show ?thesis
    unfolding built by (simp add: getStations_def filterStations_stations)
qed

text \<open>An instance: two stations that name each other as child are loaded, and
  \<open>getStations\<close> lists neither.\<close>

theorem loadData_no_topology_check_witness:
  "list_all (\<lambda>s. children s \<noteq> ChildrenNotIterable) cyclicStations
   \<and> fst (loadData newMTAProvider (Inr exampleData)
            (Inr (StationArray (map StationEntry cyclicStations)))) = Inr ()
   \<and> stations (snd (loadData newMTAProvider (Inr exampleData)
                      (Inr (StationArray (map StationEntry cyclicStations)))))
       = StationArray (map StationEntry cyclicStations)
   \<and> getStations (snd (loadData newMTAProvider (Inr exampleData)
                         (Inr (StationArray (map StationEntry cyclicStations))))) = Inr []"
proof -
  have ok: "list_all (\<lambda>s. children s \<noteq> ChildrenNotIterable) cyclicStations"
    by (simp add: cyclicStations_def exampleStation_def)
  have "filter (\<lambda>s. stop_id s \<notin> snd ` set (childEdges cyclicStations)) cyclicStations = []"
    by (simp add: childEdges_def cyclicStations_def exampleStation_def)
  with loadData_no_topology_check[OF ok, of newMTAProvider exampleData] ok
  show ?thesis by simp
qed

text \<open>A station list with a cycle, in which \<open>A\<close> is its own descendant, is accepted.\<close>

theorem loadData_cycle_counterexample:
  "ownDescendant cyclicStations ''A''
   \<and> fst (loadData newMTAProvider (Inr exampleData)
            (Inr (StationArray (map StationEntry cyclicStations)))) = Inr ()
   \<and> stations (snd (loadData newMTAProvider (Inr exampleData)
                      (Inr (StationArray (map StationEntry cyclicStations)))))
       = StationArray (map StationEntry cyclicStations)"
proof -
  have "(''A'', ''B'') \<in> set (childEdges cyclicStations)"
    "(''B'', ''A'') \<in> set (childEdges cyclicStations)"
    by (simp_all add: childEdges_def cyclicStations_def exampleStation_def)
  then have "ownDescendant cyclicStations ''A''"
    unfolding ownDescendant_def by (rule trancl_into_trancl[OF r_into_trancl])
  moreover have "list_all okEntry (map StationEntry cyclicStations)"
    by (simp add: okEntry_def cyclicStations_def exampleStation_def)
  ultimately show ?thesis
    by (simp add: loadData_def buildChildStationSet_array del: map_map)
qed

text \<open>
  C6. The list that \<open>getPredictions\<close> returns is sorted by \<open>time\<close>, has at most 6 entries,
  and the rank of each entry is its index. It is the first 6 entries, at most, of the
  collected predictions sorted by \<open>time\<close>, each ranked by its index there, so the ranks
  are given before the truncation; and the sort is stable: among the entries of any one
  wait, the returned ones are the first of the collection, in the order of the collection.
  A call returns a list exactly when it collects its predictions or no data is loaded.
\<close>

theorem getPredictions_sorted_ranked:
  "(\<forall>ps. getPredictions maxArguments this stopId dir now = Inr ps \<longrightarrow>
       sorted (map time ps) \<and> length ps \<le> 6
       \<and> (\<forall>i<length ps. display_order (ps ! i) = int i)
       \<and> (\<forall>hist. historicalData this = Some hist \<longrightarrow>
            (\<exists>collected. collectPredictions maxArguments hist this stopId dir now = Inr collected)))
   \<and> (\<forall>hist collected. historicalData this = Some hist
         \<and> collectPredictions maxArguments hist this stopId dir now = Inr collected \<longrightarrow>
       (\<exists>ps. getPredictions maxArguments this stopId dir now = Inr ps
          \<and> length ps = min 6 (length collected)
          \<and> (\<forall>i<length ps. ps ! i = (sortByTime collected ! i)\<lparr>display_order := int i\<rparr>)
          \<and> (\<forall>w. prefix
                (filter (\<lambda>p. time p = w) (map (\<lambda>p. p\<lparr>display_order := 0\<rparr>) ps))
                (filter (\<lambda>p. time p = w) collected))))"
proof (intro conjI allI impI)
  fix ps
  assume ret: "getPredictions maxArguments this stopId dir now = Inr ps"
  show "sorted (map time ps)" by (rule sorted_getPredictions[OF ret])
  show "length ps \<le> 6"
    using length_getPredictions[OF ret] by (simp add: MAX_NUM_PREDICTIONS_def)
  show "\<And>i. i < length ps \<Longrightarrow> display_order (ps ! i) = int i"
    using ranked_getPredictions[OF ret] by blast
  show "\<And>hist. historicalData this = Some hist \<Longrightarrow>
      \<exists>collected. collectPredictions maxArguments hist this stopId dir now = Inr collected"
    using getPredictions_InrD[OF ret] by auto
next
  fix hist collected
  assume a: "historicalData this = Some hist
      \<and> collectPredictions maxArguments hist this stopId dir now = Inr collected"
  then have call: "getPredictions maxArguments this stopId dir now = Inr (topPredictions collected)"
    by (simp add: getPredictions_Inr)
  have unranked: "\<forall>p\<in>set collected. display_order p = 0"
    using a collectPredictions_unranked by blast
  have "length (topPredictions collected) = min 6 (length collected)"
    by (simp add: length_topPredictions MAX_NUM_PREDICTIONS_def)
  moreover have "\<forall>i<length (topPredictions collected).
      topPredictions collected ! i = (sortByTime collected ! i)\<lparr>display_order := int i\<rparr>"
    by (simp add: nth_topPredictions)
  moreover have "\<forall>w. prefix
      (filter (\<lambda>p. time p = w) (map (\<lambda>p. p\<lparr>display_order := 0\<rparr>) (topPredictions collected)))
      (filter (\<lambda>p. time p = w) collected)"
    using stable_topPredictions[OF unranked] by blast
  ultimately show "\<exists>ps. getPredictions maxArguments this stopId dir now = Inr ps
      \<and> length ps = min 6 (length collected)
      \<and> (\<forall>i<length ps. ps ! i = (sortByTime collected ! i)\<lparr>display_order := int i\<rparr>)
      \<and> (\<forall>w. prefix
            (filter (\<lambda>p. time p = w) (map (\<lambda>p. p\<lparr>display_order := 0\<rparr>) ps))
            (filter (\<lambda>p. time p = w) collected))"
    using call by blast
qed

text \<open>An instance: stop \<open>P\<close> collects eight entries, two pairs of them with equal waits;
  six are returned, the entry of \<open>P\<close> before the entry of its child at each tie.\<close>

theorem getPredictions_sorted_ranked_witness:
  "historicalData exampleProvider = Some (decompressHistoricalData exampleData)
   \<and> collectPredictions exampleLimit (decompressHistoricalData exampleData) exampleProvider ''P''
         None exampleNow
       = Inr (concat (map (fromStation (decompressHistoricalData exampleData)
                             (getDayType exampleNow) None (getSecondsFromMidnight exampleNow))
                        [''P'', ''C1'', ''C2'']))
   \<and> length (concat (map (fromStation (decompressHistoricalData exampleData)
                             (getDayType exampleNow) None (getSecondsFromMidnight exampleNow))
                        [''P'', ''C1'', ''C2''])) = 8
   \<and> getPredictions exampleLimit exampleProvider ''P'' None exampleNow = Inr examplePredictions
   \<and> map (\<lambda>p. (route_id p, time p, display_order p)) examplePredictions
       = [(''4'', 60, 0), (''6'', 60, 1), (''6'', 150, 2), (''4'', 300, 3), (''6'', 300, 4),
          (''4'', 350, 5)]
   \<and> sorted (map time examplePredictions)
   \<and> length examplePredictions = min 6 8"
proof -
  from getPredictions_sorted_ranked[of exampleLimit exampleProvider "''P''" None exampleNow]
    example_P
  have "sorted (map time examplePredictions)" by blast
  moreover have "length examplePredictions = min 6 8" by (simp add: length_example_P)
  ultimately show ?thesis
    using historicalData_example collected_example_P example_collected_length example_P
      example_P_entries
    by blast
qed

text \<open>
  C7. \<open>isExpressTrain\<close> holds if and only if the route is \<open>4\<close> or \<open>6\<close> and the trip id
  contains \<open>_X\<close> or \<open>EXPRESS\<close>, and the \<open>is_express\<close> flag of a prediction is
  \<open>isExpressTrain\<close> of its record. On a dataset whose one record is route \<open>6\<close>,
  direction \<open>0\<close>, departure 100, trip \<open>t1_EXPRESS\<close>, on a weekday at second 50, for a
  stop whose listed children read nothing from that dataset, \<open>getPredictions\<close> returns
  exactly one prediction, with wait 50, rank 0 and the flag set.
\<close>

theorem express_flag:
  "(isExpressTrain routeId tripId \<longleftrightarrow>
      (routeId = ''4'' \<or> routeId = ''6'')
      \<and> ((\<exists>a b. tripId = a @ ''_X'' @ b) \<or> (\<exists>a b. tripId = a @ ''EXPRESS'' @ b)))
   \<and> (predictionOf dt dir secs h = Some p \<longrightarrow>
        is_express p
          = isExpressTrain (HistoricalTrainTime.route_id h) (HistoricalTrainTime.trip_id h))
   \<and> (historicalData this =
         Some [stopId \<mapsto> [\<lparr>HistoricalTrainTime.route_id = ''6'', direction_id = ''0'',
                 long_name = nm, departure_time = 100, trip_id = ''t1_EXPRESS'',
                 day_type = WEEKDAY\<rparr>]]
       \<and> stationIdsToCheck maxArguments this stopId = Inr ids
       \<and> (\<forall>stationId\<in>set (tl ids).
             lookupTimes
               [stopId \<mapsto> [\<lparr>HistoricalTrainTime.route_id = ''6'', direction_id = ''0'',
                 long_name = nm, departure_time = 100, trip_id = ''t1_EXPRESS'',
                 day_type = WEEKDAY\<rparr>]] stationId = Missing)
       \<and> getDayType now = WEEKDAY \<and> getSecondsFromMidnight now = 50
       \<and> (direction = None \<or> direction = Some 0) \<longrightarrow>
        getPredictions maxArguments this stopId direction now
          = Inr [\<lparr>route_id = ''6'', direction_id = ''0'', long_name = nm, time = 50,
              display_order = 0, stop_headsign = None, trip_id = ''t1_EXPRESS'',
              is_express = True\<rparr>])"
proof (intro conjI impI)
  show "isExpressTrain routeId tripId \<longleftrightarrow>
      (routeId = ''4'' \<or> routeId = ''6'')
      \<and> ((\<exists>a b. tripId = a @ ''_X'' @ b) \<or> (\<exists>a b. tripId = a @ ''EXPRESS'' @ b))"
    unfolding isExpressTrain_def includesStr_iff by auto
next
  assume "predictionOf dt dir secs h = Some p"
  then show "is_express p
      = isExpressTrain (HistoricalTrainTime.route_id h) (HistoricalTrainTime.trip_id h)"
    by (rule predictionOf_SomeD(5))
next
  let ?h = "\<lparr>HistoricalTrainTime.route_id = ''6'', direction_id = ''0'',
                 long_name = nm, departure_time = 100, trip_id = ''t1_EXPRESS'',
                 day_type = WEEKDAY\<rparr>"
  let ?p = "\<lparr>route_id = ''6'', direction_id = ''0'', long_name = nm, time = 50,
              display_order = 0, stop_headsign = None, trip_id = ''t1_EXPRESS'',
              is_express = True\<rparr>"
  assume a: "historicalData this = Some [stopId \<mapsto> [?h]]
       \<and> stationIdsToCheck maxArguments this stopId = Inr ids
       \<and> (\<forall>stationId\<in>set (tl ids). lookupTimes [stopId \<mapsto> [?h]] stationId = Missing)
       \<and> getDayType now = WEEKDAY \<and> getSecondsFromMidnight now = 50
       \<and> (direction = None \<or> direction = Some 0)"
  have zero: "toString 0 = ''0''" by (simp add: toString_def digitsOf.simps)
  have express: "isExpressTrain ''6'' ''t1_EXPRESS''"
    by (simp add: isExpressTrain_def)
  have body: "predictionOf WEEKDAY direction 50 ?h = Some ?p"
    using a express zero by (auto simp: predictionOf_cases waitTimeOf_eq)
  have ids: "stationIdsToCheck maxArguments this stopId = Inr ids"
    and rest: "\<forall>stationId\<in>set (tl ids). lookupTimes [stopId \<mapsto> [?h]] stationId = Missing"
    using a by blast+
  have own: "[stopId \<mapsto> [?h]] stopId = Some [?h]" by simp
  have "collectPredictions maxArguments [stopId \<mapsto> [?h]] this stopId direction now
      = Inr (List.map_filter
               (predictionOf (getDayType now) direction (getSecondsFromMidnight now)) [?h])"
    by (rule single_station_collect[OF ids own rest])
  then have "collectPredictions maxArguments [stopId \<mapsto> [?h]] this stopId direction now
      = Inr [?p]"
    using a body by (simp add: List.map_filter_simps)
  moreover have "topPredictions [?p] = [?p]"
    by (simp add: topPredictions_def sortByTime_def assignDisplayOrder_def
        MAX_NUM_PREDICTIONS_def)
  ultimately show "getPredictions maxArguments this stopId direction now = Inr [?p]"
    using a getPredictions_Inr[of this "[stopId \<mapsto> [?h]]" maxArguments stopId direction now "[?p]"]
    by simp
qed

text \<open>An instance: the scenario, asked for direction 0 on a Monday.\<close>

theorem express_flag_witness:
  "historicalData expressProvider = Some [''S'' \<mapsto> [expressRecord]]
   \<and> stationIdsToCheck exampleLimit expressProvider ''S'' = Inr [''S'']
   \<and> getDayType exampleNow = WEEKDAY \<and> getSecondsFromMidnight exampleNow = 50
   \<and> isExpressTrain ''6'' ''t1_EXPRESS''
   \<and> getPredictions exampleLimit expressProvider ''S'' (Some 0) exampleNow
       = Inr [\<lparr>route_id = ''6'', direction_id = ''0'', long_name = Some ''Pelham Bay Park'',
           time = 50, display_order = 0, stop_headsign = None, trip_id = ''t1_EXPRESS'',
           is_express = True\<rparr>]"
proof -
  have 1: "historicalData expressProvider = Some [''S'' \<mapsto> [expressRecord]]"
    by (simp add: expressProvider_def)
  have 2: "stationIdsToCheck exampleLimit expressProvider ''S'' = Inr [''S'']"
    by (simp add: stationIdsToCheck_def getStation_def expressProvider_def newMTAProvider_def)
  have 3: "getDayType exampleNow = WEEKDAY" "getSecondsFromMidnight exampleNow = 50"
    by (simp_all add: getDayType_def getSecondsFromMidnight_def exampleNow_def)
  have 4: "isExpressTrain ''6'' ''t1_EXPRESS''
      \<longleftrightarrow> (\<exists>a b. ''t1_EXPRESS'' = a @ ''_X'' @ b) \<or> (\<exists>a b. ''t1_EXPRESS'' = a @ ''EXPRESS'' @ b)"
    using express_flag[of "''6''" "''t1_EXPRESS''"] by simp
  have "''t1_EXPRESS'' = ''t1_'' @ ''EXPRESS'' @ []" by simp
  with 4 have 5: "isExpressTrain ''6'' ''t1_EXPRESS''" by blast
  from express_flag[of _ _ _ _ _ _ _ expressProvider "''S''" "Some ''Pelham Bay Park''"
      exampleLimit "[''S'']" exampleNow "Some 0"] 1 2 3
  have "getPredictions exampleLimit expressProvider ''S'' (Some 0) exampleNow
       = Inr [\<lparr>route_id = ''6'', direction_id = ''0'', long_name = Some ''Pelham Bay Park'',
           time = 50, display_order = 0, stop_headsign = None, trip_id = ''t1_EXPRESS'',
           is_express = True\<rparr>]"
    by (simp add: expressRecord_def)
  with 1 2 3 5 show ?thesis by blast
qed

text \<open>
  C8. On a list of fewer than two predictions, the empty list included,
  \<open>getSecondTrain\<close> returns nothing and leaves the provider, and so the rotation state,
  as it was.
\<close>

theorem getSecondTrain_short:
  "length predictions < 2 \<Longrightarrow> getSecondTrain this predictions = (None, this)"
  by (simp add: getSecondTrain_def)

text \<open>An instance: a list of one prediction.\<close>

theorem getSecondTrain_short_witness:
  "length (take 1 examplePredictions) < 2
   \<and> getSecondTrain exampleProvider (take 1 examplePredictions) = (None, exampleProvider)"
proof -
  have "length (take 1 examplePredictions) < 2" by simp
  with getSecondTrain_short[of "take 1 examplePredictions" exampleProvider]
  show ?thesis by blast
qed

text \<open>
  C9, amended. Before any load \<open>getPredictions\<close> returns the empty list, and every list
  it returns is sorted and no longer than the display capacity. The ids it reads are the
  stop id alone when the stop has no station entry or its station lists no children, and
  the stop id followed by the listed children when they are no more than the engine
  accepts as arguments. Whenever these ids are resolved and none of them reads an
  inherited member of the data object (no id does that is a key of the data, or that is
  no member name of \<open>Object.prototype\<close> when the data has no key \<open>__proto__\<close>), the call
  returns a list: the collection is the pushed entries of the stop's own records followed
  by those of each listed child, in that order, and the list is the first entries, at
  most 6, of its stable sort, which is a rearrangement of it. The list is empty when no
  id read has departures; a stop id with departures and no station entry yields its own.
\<close>

theorem getPredictions_total:
  "(historicalData this = None \<longrightarrow> getPredictions maxArguments this stopId dir now = Inr [])
   \<and> (\<forall>ps. getPredictions maxArguments this stopId dir now = Inr ps \<longrightarrow>
         length ps \<le> MAX_NUM_PREDICTIONS \<and> sorted (map time ps))
   \<and> (getStation this stopId = Inr None \<longrightarrow>
         stationIdsToCheck maxArguments this stopId = Inr [stopId])
   \<and> (\<forall>station. getStation this stopId = Inr (Some station) \<and> children station = NoChildren \<longrightarrow>
         stationIdsToCheck maxArguments this stopId = Inr [stopId])
   \<and> (\<forall>station cs. getStation this stopId = Inr (Some station) \<and> children station = ChildIds cs
         \<and> length cs \<le> maxArguments \<longrightarrow>
         stationIdsToCheck maxArguments this stopId = Inr (stopId # cs))
   \<and> (\<forall>hist ids. historicalData this = Some hist
         \<and> stationIdsToCheck maxArguments this stopId = Inr ids
         \<and> (\<forall>stationId\<in>set ids. lookupTimes hist stationId \<noteq> NotIterable) \<longrightarrow>
         (\<exists>ps. getPredictions maxArguments this stopId dir now = Inr ps
            \<and> collectPredictions maxArguments hist this stopId dir now
                = Inr (concat (map (fromStation hist (getDayType now) dir
                                      (getSecondsFromMidnight now)) ids))
            \<and> map (\<lambda>p. p\<lparr>display_order := 0\<rparr>) ps
                = take MAX_NUM_PREDICTIONS
                    (sortByTime (concat (map (fromStation hist (getDayType now) dir
                                                (getSecondsFromMidnight now)) ids)))
            \<and> mset (sortByTime (concat (map (fromStation hist (getDayType now) dir
                                                (getSecondsFromMidnight now)) ids)))
                = mset (concat (map (fromStation hist (getDayType now) dir
                                       (getSecondsFromMidnight now)) ids))
            \<and> ((\<forall>stationId\<in>set ids. hist stationId = None) \<longrightarrow> ps = [])))
   \<and> (\<forall>hist name. hist name \<noteq> None
         \<or> hist ''__proto__'' = None \<and> name \<notin> set objectPrototypeNames \<longrightarrow>
         lookupTimes hist name \<noteq> NotIterable)"
proof (intro conjI allI impI)
  assume "historicalData this = None"
  then show "getPredictions maxArguments this stopId dir now = Inr []"
    by (rule getPredictions_None)
next
  fix ps
  assume ret: "getPredictions maxArguments this stopId dir now = Inr ps"
  show "length ps \<le> MAX_NUM_PREDICTIONS" by (rule length_getPredictions[OF ret])
  show "sorted (map time ps)" by (rule sorted_getPredictions[OF ret])
next
  assume "getStation this stopId = Inr None"
  then show "stationIdsToCheck maxArguments this stopId = Inr [stopId]"
    by (simp add: stationIdsToCheck_def)
next
  fix station
  assume "getStation this stopId = Inr (Some station) \<and> children station = NoChildren"
  then show "stationIdsToCheck maxArguments this stopId = Inr [stopId]"
    by (simp add: stationIdsToCheck_def)
next
  fix station cs
  assume "getStation this stopId = Inr (Some station) \<and> children station = ChildIds cs
      \<and> length cs \<le> maxArguments"
  then show "stationIdsToCheck maxArguments this stopId = Inr (stopId # cs)"
    by (simp add: stationIdsToCheck_def)
next
  fix hist ids
  let ?c = "concat (map (fromStation hist (getDayType now) dir (getSecondsFromMidnight now)) ids)"
  assume a: "historicalData this = Some hist
      \<and> stationIdsToCheck maxArguments this stopId = Inr ids
      \<and> (\<forall>stationId\<in>set ids. lookupTimes hist stationId \<noteq> NotIterable)"
  then have coll: "collectPredictions maxArguments hist this stopId dir now = Inr ?c"
    by (simp add: collectPredictions_Inr)
  with a have call: "getPredictions maxArguments this stopId dir now = Inr (topPredictions ?c)"
    by (simp add: getPredictions_Inr)
  have unranked: "\<forall>p\<in>set ?c. display_order p = 0"
    using collectPredictions_unranked[OF coll] by blast
  have unrank: "map (\<lambda>p. p\<lparr>display_order := 0\<rparr>) (topPredictions ?c)
      = take MAX_NUM_PREDICTIONS (sortByTime ?c)"
    by (rule unrank_topPredictions[OF unranked])
  have perm: "mset (sortByTime ?c) = mset ?c"
    by (simp add: sortByTime_def)
  have empty: "(\<forall>stationId\<in>set ids. hist stationId = None) \<longrightarrow> topPredictions ?c = []"
  proof
    assume "\<forall>stationId\<in>set ids. hist stationId = None"
    then have c: "?c = []" by (induction ids) (simp_all add: fromStation_def)
    have "topPredictions [] = []"
      by (simp add: topPredictions_def sortByTime_def assignDisplayOrder_def)
    then show "topPredictions ?c = []" unfolding c .
  qed
  from call coll unrank perm empty
  show "\<exists>ps. getPredictions maxArguments this stopId dir now = Inr ps
      \<and> collectPredictions maxArguments hist this stopId dir now = Inr ?c
      \<and> map (\<lambda>p. p\<lparr>display_order := 0\<rparr>) ps = take MAX_NUM_PREDICTIONS (sortByTime ?c)
      \<and> mset (sortByTime ?c) = mset ?c
      \<and> ((\<forall>stationId\<in>set ids. hist stationId = None) \<longrightarrow> ps = [])"
    by blast
next
  fix hist :: HistoricalData and name
  assume "hist name \<noteq> None
      \<or> hist ''__proto__'' = None \<and> name \<notin> set objectPrototypeNames"
  then show "lookupTimes hist name \<noteq> NotIterable"
  proof
    assume "hist name \<noteq> None"
    then obtain hs where "hist name = Some hs" by blast
    then have "lookupTimes hist name = Records hs" by (simp add: lookupTimes_Records_iff)
    then show ?thesis by simp
  next
    assume "hist ''__proto__'' = None \<and> name \<notin> set objectPrototypeNames"
    then show ?thesis by (simp add: lookupTimes_plain split: option.split)
  qed
qed

text \<open>An instance: the parent \<open>P\<close> with the merged entries of \<open>P\<close>, \<open>C1\<close> and \<open>C2\<close>, a
  stop id that neither table knows, and a provider before its load.\<close>

theorem getPredictions_total_witness:
  "historicalData exampleProvider = Some (decompressHistoricalData exampleData)
   \<and> stationIdsToCheck exampleLimit exampleProvider ''P'' = Inr [''P'', ''C1'', ''C2'']
   \<and> getPredictions exampleLimit exampleProvider ''P'' None exampleNow = Inr examplePredictions
   \<and> map (\<lambda>p. (route_id p, time p, display_order p)) examplePredictions
       = [(''4'', 60, 0), (''6'', 60, 1), (''6'', 150, 2), (''4'', 300, 3), (''6'', 300, 4),
          (''4'', 350, 5)]
   \<and> map (\<lambda>p. p\<lparr>display_order := 0\<rparr>) examplePredictions
       = take MAX_NUM_PREDICTIONS
           (sortByTime (concat (map (fromStation (decompressHistoricalData exampleData)
              (getDayType exampleNow) None (getSecondsFromMidnight exampleNow))
              [''P'', ''C1'', ''C2''])))
   \<and> getStation exampleProvider ''X99'' = Inr None
   \<and> decompressHistoricalData exampleData ''X99'' = None
   \<and> getPredictions exampleLimit exampleProvider ''X99'' None exampleNow = Inr []
   \<and> getPredictions exampleLimit newMTAProvider ''P'' None exampleNow = Inr []"
proof -
  note total = getPredictions_total[of exampleProvider exampleLimit _ None exampleNow]
  from total[of "''P''"] historicalData_example ids_example_P plain_example example_P
  have 0: "map (\<lambda>p. p\<lparr>display_order := 0\<rparr>) examplePredictions
       = take MAX_NUM_PREDICTIONS
           (sortByTime (concat (map (fromStation (decompressHistoricalData exampleData)
              (getDayType exampleNow) None (getSecondsFromMidnight exampleNow))
              [''P'', ''C1'', ''C2''])))"
    by (metis sum.inject(2))
  have 1: "getStation exampleProvider ''X99'' = Inr None"
    by (simp add: getStation_def stations_example exampleStations_def exampleStation_def)
  have 2: "decompressHistoricalData exampleData ''X99'' = None"
    by (simp add: decompressHistoricalData_def exampleData_def)
  have proto: "decompressHistoricalData exampleData ''__proto__'' = None"
    by (simp add: decompressHistoricalData_def exampleData_def)
  have name: "''X99'' \<notin> set objectPrototypeNames"
    by (simp add: objectPrototypeNames_def)
  from total[of "''X99''"] 1 have ids: "stationIdsToCheck exampleLimit exampleProvider ''X99''
      = Inr [''X99'']"
    by blast
  from total[of "''X99''"] proto name
  have "lookupTimes (decompressHistoricalData exampleData) ''X99'' \<noteq> NotIterable"
    by blast
  then have "\<forall>stationId\<in>set [''X99''].
      lookupTimes (decompressHistoricalData exampleData) stationId \<noteq> NotIterable"
    by simp
  with total[of "''X99''"] historicalData_example ids 2
  have 3: "getPredictions exampleLimit exampleProvider ''X99'' None exampleNow = Inr []"
    by (metis empty_iff empty_set set_ConsD)
  have "historicalData newMTAProvider = None" by (simp add: newMTAProvider_def)
  with getPredictions_total[of newMTAProvider exampleLimit "''P''" None exampleNow]
  have 4: "getPredictions exampleLimit newMTAProvider ''P'' None exampleNow = Inr []" by blast
  from historicalData_example ids_example_P example_P example_P_entries 0 1 2 3 4
  show ?thesis by blast
qed

text \<open>\<open>getPredictions\<close> does not return a list for every stop id, and a stop that the
  station table does not know is not always answered with the empty list: on the loaded
  example the stop id \<open>constructor\<close> raises \<open>TypeError\<close>, and the stop \<open>S\<close>, which has
  departures and no station entry, yields its departure.\<close>

theorem getPredictions_raises_counterexample:
  "getPredictions exampleLimit exampleProvider ''constructor'' None exampleNow = Inl TypeError
   \<and> getStation expressProvider ''S'' = Inr None
   \<and> map_sum id (map time) (getPredictions exampleLimit expressProvider ''S'' None exampleNow)
       = Inr [50]"
proof -
  have "getStation exampleProvider ''constructor'' = Inr None"
    by (simp add: getStation_def stations_example exampleStations_def exampleStation_def)
  then have ids: "stationIdsToCheck exampleLimit exampleProvider ''constructor''
      = Inr [''constructor'']"
    by (simp add: stationIdsToCheck_def)
  have "lookupTimes (decompressHistoricalData exampleData) ''constructor'' = NotIterable"
    by (simp add: lookupTimes_def decompressHistoricalData_def exampleData_def
        objectPrototypeNames_def)
  with ids have "collectPredictions exampleLimit (decompressHistoricalData exampleData)
      exampleProvider ''constructor'' None exampleNow = Inl TypeError"
    by (simp add: collectPredictions_def)
  from getPredictions_Inl[OF historicalData_example this]
  have 1: "getPredictions exampleLimit exampleProvider ''constructor'' None exampleNow
      = Inl TypeError" .
  have 2: "getStation expressProvider ''S'' = Inr None"
    by (simp add: getStation_def expressProvider_def newMTAProvider_def)
  then have ids2: "stationIdsToCheck exampleLimit expressProvider ''S'' = Inr [''S'']"
    by (simp add: stationIdsToCheck_def)
  have hist2: "historicalData expressProvider = Some [''S'' \<mapsto> [expressRecord]]"
    by (simp add: expressProvider_def)
  have own: "[''S'' \<mapsto> [expressRecord]] ''S'' = Some [expressRecord]" by simp
  have "\<forall>stationId\<in>set (tl [''S'']). lookupTimes [''S'' \<mapsto> [expressRecord]] stationId = Missing"
    by simp
  from getPredictions_Inr[OF hist2 single_station_collect[OF ids2 own this]]
  have "getPredictions exampleLimit expressProvider ''S'' None exampleNow
      = Inr (topPredictions (List.map_filter
          (predictionOf (getDayType exampleNow) None (getSecondsFromMidnight exampleNow))
          [expressRecord]))" .
  moreover have "map time (topPredictions (List.map_filter
      (predictionOf (getDayType exampleNow) None (getSecondsFromMidnight exampleNow))
      [expressRecord])) = [50]"
    by code_simp
  ultimately have 3: "map_sum id (map time)
      (getPredictions exampleLimit expressProvider ''S'' None exampleNow) = Inr [50]"
    by simp
  from 1 2 3 show ?thesis by blast
qed

text \<open>
  C10. Every record that the decompression produces has the empty trip id. After a load
  that parsed the historical document, every prediction that \<open>getPredictions\<close> returns
  has the empty trip id and \<open>is_express = False\<close>, whatever its route.
\<close>

theorem compressed_never_express:
  "(\<forall>stopId hs. decompressHistoricalData c stopId = Some hs \<longrightarrow>
      (\<forall>h\<in>set hs. HistoricalTrainTime.trip_id h = []))
   \<and> (\<forall>ps. getPredictions maxArguments (snd (loadData this (Inr c) stationsDocument))
               stopId dir now = Inr ps \<longrightarrow>
        (\<forall>q\<in>set ps. trip_id q = [] \<and> \<not> is_express q))"
proof (intro conjI allI impI ballI)
  fix stopId hs h
  assume "decompressHistoricalData c stopId = Some hs" "h \<in> set hs"
  then show "HistoricalTrainTime.trip_id h = []" by (rule decompress_trip_id)
next
  fix ps q
  let ?prov = "snd (loadData this (Inr c) stationsDocument)"
  let ?hist = "decompressHistoricalData c"
  assume ret: "getPredictions maxArguments ?prov stopId dir now = Inr ps" and q: "q \<in> set ps"
  have hist: "historicalData ?prov = Some ?hist" by (rule historicalData_loaded)
  from getPredictions_InrD[OF ret] hist obtain collected
    where coll: "collectPredictions maxArguments ?hist ?prov stopId dir now = Inr collected"
      and ps: "ps = topPredictions collected"
    by auto
  have unranked: "\<forall>p\<in>set collected. display_order p = 0"
    using collectPredictions_unranked[OF coll] by blast
  from q ps have "q\<lparr>display_order := 0\<rparr>
      \<in> set (map (\<lambda>p. p\<lparr>display_order := 0\<rparr>) (topPredictions collected))"
    by simp
  with set_topPredictions_subset[OF unranked]
  have mem: "q\<lparr>display_order := 0\<rparr> \<in> set collected" by blast
  from collectPredictions_InrD[OF coll] obtain ids
    where ids: "stationIdsToCheck maxArguments ?prov stopId = Inr ids" by blast
  from mem obtain stationId hs h where h: "?hist stationId = Some hs" "h \<in> set hs"
    "predictionOf (getDayType now) dir (getSecondsFromMidnight now) h
       = Some (q\<lparr>display_order := 0\<rparr>)"
    unfolding set_collectPredictions[OF coll ids] by blast
  from decompress_trip_id[OF h(1,2)] have trip: "HistoricalTrainTime.trip_id h = []" .
  from predictionOf_SomeD(5,6)[OF h(3)] trip isExpressTrain_empty_trip
  show "trip_id q = []" "\<not> is_express q" by simp_all
qed

text \<open>An instance: the six predictions of stop \<open>P\<close>, all on routes 4 and 6.\<close>

theorem compressed_never_express_witness:
  "getPredictions exampleLimit exampleProvider ''P'' None exampleNow = Inr examplePredictions
   \<and> length examplePredictions = 6
   \<and> map is_express examplePredictions = [False, False, False, False, False, False]
   \<and> map route_id examplePredictions = [''4'', ''6'', ''6'', ''4'', ''6'', ''4'']"
proof -
  let ?ps = "examplePredictions"
  from compressed_never_express[of exampleData exampleLimit newMTAProvider
      "Inr (StationArray (map StationEntry exampleStations))" "''P''" None exampleNow]
    example_P
  have "\<forall>q\<in>set ?ps. \<not> is_express q" unfolding exampleProvider_def by blast
  then have "map is_express ?ps = map (\<lambda>q. False) ?ps"
    by (intro map_cong) simp_all
  then have "map is_express ?ps = replicate (length ?ps) False"
    by (simp add: map_replicate_const)
  then have "map is_express ?ps = [False, False, False, False, False, False]"
    unfolding length_example_P by (simp add: numeral_eq_Suc)
  moreover have "map route_id ?ps = [''4'', ''6'', ''6'', ''4'', ''6'', ''4'']"
    using arg_cong[OF example_P_entries, of "map fst"] by (simp add: comp_def)
  ultimately show ?thesis using length_example_P example_P by blast
qed

end
